theory Spec2Isabelle
  imports Main
begin

section \<open>Cells, tables and Python errors\<close>

text \<open>
  The tabulation engine of \<^verbatim>\<open>tabulate.py\<close> works on the list of tables that
  \<^verbatim>\<open>pd.read_html\<close> parses out of one report page. Such a table has no header row of
  its own: its rows and its columns are labelled 0, 1, 2, ... and a cell is a text, a
  number (when a whole column parsed as numbers) or the missing value NaN. A number
  is an integer or a floating-point number; the code does nothing with a
  floating-point number but print it, so a floating-point cell is given by the text
  Python prints for it (\<^verbatim>\<open>5.0\<close>, \<^verbatim>\<open>0.25\<close>).
  A table is modelled by the list of its rows; a row that is shorter than the widest
  row of its table reads as NaN further right, which is how the parser pads it.
\<close>

datatype cell = Str string | Num int | Flt string | NaN

type_synonym table = "cell list list"

datatype error =
    IndexError | KeyError | AttributeError | AssertionError | TypeError | ValueError
  | NotImplementedError | ReindexError

text \<open>
  The library behind the code is pandas before its version 2 (\<^verbatim>\<open>Series.append\<close> is
  gone after that); where versions differ the model follows pandas 1.5.
  \<open>ReindexError\<close> stands for the exception pandas raises when it has to align data on
  labels that are not unique; its Python class differs between pandas versions.
\<close>

definition ncols :: "table \<Rightarrow> nat" where
  "ncols t = foldr max (map length t) 0"

definition cell_at :: "table \<Rightarrow> nat \<Rightarrow> nat \<Rightarrow> cell" where
  "cell_at t r c = (let row = t ! r in if c < length row then row ! c else NaN)"

text \<open>\<^verbatim>\<open>table.loc[r, c]\<close> on a parsed table: a missing label is a KeyError.\<close>

definition loc :: "table \<Rightarrow> nat \<Rightarrow> nat \<Rightarrow> error + cell" where
  "loc t r c = (if r < length t \<and> c < ncols t then Inr (cell_at t r c) else Inl KeyError)"

text \<open>
  \<^verbatim>\<open>table.set_index(0)[1]\<close>: the series whose labels are the cells of column 0 and
  whose values are the cells of column 1, in row order.
\<close>

definition set_index0_col1 :: "table \<Rightarrow> error + (cell \<times> cell) list" where
  "set_index0_col1 t =
     (if ncols t < 2 then Inl KeyError
      else Inr (map (\<lambda>r. (cell_at t r 0, cell_at t r 1)) [0..<length t]))"

section \<open>Strings\<close>

text \<open>\<^verbatim>\<open>s.partition(",")\<close>, without the separator: the text before the first comma and
  the text after it; the whole text and the empty text when there is no comma.\<close>

definition partition_comma :: "string \<Rightarrow> string \<times> string" where
  "partition_comma s =
     (takeWhile (\<lambda>c. c \<noteq> CHR '','') s, drop 1 (dropWhile (\<lambda>c. c \<noteq> CHR '','') s))"

definition is_digit :: "char \<Rightarrow> bool" where
  "is_digit c = (c \<in> set ''0123456789'')"

section \<open>Series and the report record\<close>

text \<open>
  A pandas series is an ordered list of (label, value) entries, in which a label may
  occur more than once, together with its name.
\<close>

record series =
  sname :: "string option"
  items :: "(cell \<times> cell) list"

definition empty_series :: series where
  "empty_series = \<lparr>sname = None, items = []\<rparr>"

definition REPORT_URL :: "string \<Rightarrow> string" where
  "REPORT_URL report_id =
     ''https://www.oie.int/wahis_2/public/wahid.php/Reviewreport/Review?reportid='' @ report_id"

definition metadata_labels :: "cell list" where
  "metadata_labels =
     [Str ''Report type'',
      Str ''Source of the outbreak(s) or origin of infection'',
      Str ''Measures applied'']"

text \<open>The loop of \<^verbatim>\<open>get_details\<close> over all tables (lines 31 to 37).\<close>

fun details_loop :: "(cell \<times> cell) list \<Rightarrow> table list \<Rightarrow> error + (cell \<times> cell) list" where
  "details_loop out [] = Inr out"
| "details_loop out (t # ts) =
     (case loc t 0 0 of
        Inl e \<Rightarrow> Inl e
      | Inr c \<Rightarrow>
          if c \<in> set metadata_labels then
            (case set_index0_col1 t of
               Inl e \<Rightarrow> Inl e
             | Inr s \<Rightarrow> details_loop (out @ s) ts)
          else details_loop out ts)"

definition get_details :: "table list \<Rightarrow> string \<Rightarrow> error + series" where
  "get_details tables report_id =
     (if length tables < 2 then Inl IndexError
      else case loc (tables ! 1) 0 1 of
        Inl e \<Rightarrow> Inl e
      | Inr (Num n) \<Rightarrow> Inl AttributeError
      | Inr (Flt x) \<Rightarrow> Inl AttributeError
      | Inr NaN \<Rightarrow> Inl AttributeError
      | Inr (Str s) \<Rightarrow>
          (let (disease, country) = partition_comma s;
               out = [(Str ''Disease'', Str disease),
                      (Str ''Country'', Str country),
                      (Str ''Url'', Str (REPORT_URL report_id))]
           in case details_loop out tables of
                Inl e \<Rightarrow> Inl e
              | Inr out' \<Rightarrow> Inr \<lparr>sname = Some report_id, items = out'\<rparr>))"

text \<open>All values a series holds under one label, in order.\<close>

definition values_of :: "series \<Rightarrow> cell \<Rightarrow> cell list" where
  "values_of s k = map snd (filter (\<lambda>kv. fst kv = k) (items s))"

section \<open>Data frames\<close>

text \<open>
  A data frame has named index levels, column labels and rows; a row is the pair of its
  index key and its values, one per column. Labels may repeat. The frame a parsed
  table is has one unnamed index level, with the row numbers as keys.
\<close>

record frame =
  index_names :: "string option list"
  columns :: "cell list"
  rows :: "(cell list \<times> cell list) list"

text \<open>\<^verbatim>\<open>pd.DataFrame()\<close>\<close>

definition empty_frame :: frame where
  "empty_frame = \<lparr>index_names = [None], columns = [], rows = []\<rparr>"

text \<open>
  Lines 60 to 61 and 77 to 78: \<^verbatim>\<open>t.columns = t.loc[0]\<close> makes the cells of row 0 the
  column labels, \<^verbatim>\<open>t.iloc[1:]\<close> keeps the rows after it, each under its old row
  number, and \<^verbatim>\<open>infer_objects\<close> changes the storage type of a column only, never a
  cell.
\<close>

definition promote_header :: "table \<Rightarrow> frame" where
  "promote_header t =
     \<lparr>index_names = [None],
      columns = map (cell_at t 0) [0..<ncols t],
      rows = map (\<lambda>r. ([Num (int r)], map (cell_at t r) [0..<ncols t])) [1..<length t]\<rparr>"

text \<open>\<^verbatim>\<open>df.insert(pos, name, value)\<close> with a scalar value: refuses a label that is
  already a column.\<close>

definition insert_at :: "nat \<Rightarrow> 'a \<Rightarrow> 'a list \<Rightarrow> 'a list" where
  "insert_at pos x xs = take pos xs @ x # drop pos xs"

definition insert_column :: "nat \<Rightarrow> cell \<Rightarrow> cell \<Rightarrow> frame \<Rightarrow> error + frame" where
  "insert_column pos name v f =
     (if name \<in> set (columns f) then Inl ValueError
      else if length (columns f) < pos then Inl IndexError
      else Inr (f\<lparr>columns := insert_at pos name (columns f),
                  rows := map (\<lambda>(k, vs). (k, insert_at pos v vs)) (rows f)\<rparr>))"

text \<open>\<^verbatim>\<open>df[name] = value\<close> with a scalar value: every column of that label is
  overwritten; a new label becomes the last column.\<close>

definition set_column :: "cell \<Rightarrow> cell \<Rightarrow> frame \<Rightarrow> frame" where
  "set_column name v f =
     (if name \<in> set (columns f)
      then f\<lparr>rows := map (\<lambda>(k, vs). (k, map (\<lambda>(c, x). if c = name then v else x)
                                             (zip (columns f) vs))) (rows f)\<rparr>
      else f\<lparr>columns := columns f @ [name],
             rows := map (\<lambda>(k, vs). (k, vs @ [v])) (rows f)\<rparr>)"

definition is_text :: "cell \<Rightarrow> bool" where
  "is_text c = (case c of Str s \<Rightarrow> True | _ \<Rightarrow> False)"

text \<open>
  \<^verbatim>\<open>df.assign(**s)\<close> for a series \<open>s\<close>: the entries of the series are passed as
  keyword arguments, so every label has to be a text, and (from Python 3.9 on) a label
  that occurs twice is refused with the same TypeError; then the entries are set as
  columns in order.
\<close>

definition assign_series :: "(cell \<times> cell) list \<Rightarrow> frame \<Rightarrow> error + frame" where
  "assign_series kvs f =
     (if (\<exists>k \<in> set (map fst kvs). \<not> is_text k) \<or> \<not> distinct (map fst kvs)
      then Inl TypeError
      else Inr (fold (\<lambda>(k, v). set_column k v) kvs f))"

text \<open>
  \<^verbatim>\<open>pd.concat(frames, sort=False)\<close>. An empty list of frames is a ValueError.
  Frames with no row and no column are left out first, unless all frames are such.
  The result has the rows of the frames that are left, in order, under the union of
  their columns in order of first appearance; a row has NaN in a column its frame
  lacks. Frames whose column labels all agree are stacked as they are; otherwise a
  frame with a repeated column label cannot be aligned. The index level names are
  those of the first frame when all frames have as many index levels as it has (a
  single level keeps its name only when all frames agree on it); frames with
  different numbers of levels lose the names.
\<close>

definition union_labels :: "cell list list \<Rightarrow> cell list" where
  "union_labels css = fold (\<lambda>cs acc. acc @ filter (\<lambda>c. c \<notin> set acc) cs) css []"

definition reindex_row :: "cell list \<Rightarrow> cell list \<Rightarrow> cell list \<Rightarrow> cell list" where
  "reindex_row new_cols cols vs =
     map (\<lambda>c. case map_of (zip cols vs) c of None \<Rightarrow> NaN | Some v \<Rightarrow> v) new_cols"

definition kept_frames :: "frame list \<Rightarrow> frame list" where
  "kept_frames fs =
     (let non_empties = filter (\<lambda>f. rows f \<noteq> [] \<or> columns f \<noteq> []) fs
      in if non_empties = [] then fs else non_empties)"

definition lost_names :: "cell list list \<Rightarrow> string option list" where
  "lost_names keys =
     (case keys of
        [] \<Rightarrow> [None]
      | k # rest \<Rightarrow> if \<forall>k' \<in> set rest. length k' = length k then map (\<lambda>x. None) k else [None])"

definition concat_names :: "frame list \<Rightarrow> string option list" where
  "concat_names fs =
     (case fs of
        [] \<Rightarrow> [None]
      | f # gs \<Rightarrow>
          if \<forall>g \<in> set gs. index_names g = index_names f then index_names f
          else if \<forall>g \<in> set gs. length (index_names g) = length (index_names f)
            then (if length (index_names f) = 1 then [None] else index_names f)
          else lost_names (map fst (concat (map rows fs))))"

definition concat_frames :: "frame list \<Rightarrow> error + frame" where
  "concat_frames frames =
     (case kept_frames frames of
        [] \<Rightarrow> Inl ValueError
      | f # gs \<Rightarrow>
          (let fs = f # gs
           in if \<forall>g \<in> set gs. columns g = columns f
              then Inr \<lparr>index_names = concat_names fs, columns = columns f,
                        rows = concat (map rows fs)\<rparr>
              else if \<exists>g \<in> set fs. \<not> distinct (columns g) then Inl ReindexError
              else (let cols = union_labels (map columns fs)
                    in Inr \<lparr>index_names = concat_names fs, columns = cols,
                            rows = concat (map (\<lambda>g. map (\<lambda>(k, vs).
                                     (k, reindex_row cols (columns g) vs)) (rows g)) fs)\<rparr>)))"

text \<open>
  \<^verbatim>\<open>df.set_index([a, b])\<close>: the two columns become the index key of each row and
  are removed from the columns. A label that is no column is a KeyError; a label that
  names several columns does not give one key per row and is refused with a
  NotImplementedError.
\<close>

definition column_value :: "frame \<Rightarrow> cell \<Rightarrow> cell list \<Rightarrow> cell" where
  "column_value f name vs = (case map_of (zip (columns f) vs) name of None \<Rightarrow> NaN | Some v \<Rightarrow> v)"

definition drop_columns :: "cell list \<Rightarrow> cell list \<Rightarrow> 'a list \<Rightarrow> 'a list" where
  "drop_columns names cols vs = map snd (filter (\<lambda>(c, x). c \<notin> set names) (zip cols vs))"

definition set_index :: "string \<Rightarrow> string \<Rightarrow> frame \<Rightarrow> error + frame" where
  "set_index a b f =
     (if Str a \<notin> set (columns f) \<or> Str b \<notin> set (columns f) then Inl KeyError
      else if 1 < count_list (columns f) (Str a) \<or> 1 < count_list (columns f) (Str b)
        then Inl NotImplementedError
      else Inr \<lparr>index_names = [Some a, Some b],
                columns = drop_columns [Str a, Str b] (columns f) (columns f),
                rows = map (\<lambda>(k, vs). ([column_value f (Str a) vs, column_value f (Str b) vs],
                                        drop_columns [Str a, Str b] (columns f) vs)) (rows f)\<rparr>)"

section \<open>The outbreak extractor\<close>

text \<open>\<^verbatim>\<open>re.match("^Outbreak ([0-9]+)", s)\<close>: the digits captured, when the text starts
  with the word, one space and at least one digit.\<close>

definition match_outbreak :: "string \<Rightarrow> string option" where
  "match_outbreak s =
     (let ds = takeWhile is_digit (drop 9 s)
      in if take 9 s = ''Outbreak '' \<and> ds \<noteq> [] then Some ds else None)"

text \<open>\<^verbatim>\<open>int(digits)\<close>\<close>

definition digit_value :: "char \<Rightarrow> nat" where
  "digit_value c = of_char c - 48"

definition int_of_digits :: "string \<Rightarrow> nat" where
  "int_of_digits ds = foldl (\<lambda>n c. 10 * n + digit_value c) 0 ds"

text \<open>What an f-string prints for a cell.\<close>

fun str_nat :: "nat \<Rightarrow> string" where
  "str_nat n =
     (if n < 10 then [char_of (48 + n)] else str_nat (n div 10) @ [char_of (48 + n mod 10)])"

definition py_str :: "cell \<Rightarrow> string" where
  "py_str c =
     (case c of
        Str s \<Rightarrow> s
      | NaN \<Rightarrow> ''nan''
      | Flt x \<Rightarrow> x
      | Num n \<Rightarrow> (if n < 0 then ''-'' @ str_nat (nat (- n)) else str_nat (nat n)))"

text \<open>
  Lines 55 and 56: the header table with its cell (0,0) relabelled \<open>Location\<close>, as the
  series from its column 0 to its column 1.
\<close>

definition header_series :: "table \<Rightarrow> error + (cell \<times> cell) list" where
  "header_series t =
     (if ncols t < 2 then Inl KeyError
      else Inr ((Str ''Location'', cell_at t 0 1) #
                map (\<lambda>r. (cell_at t r 0, cell_at t r 1)) [1..<length t]))"

text \<open>
  Line 57: the value under \<open>Location\<close> gets the country appended. (Were the label
  \<open>Location\<close> to occur twice, Python would format a sub-series here; such a header never
  reaches the output, since \<open>assign_series\<close> refuses it.)
\<close>

definition set_location :: "string \<Rightarrow> (cell \<times> cell) list \<Rightarrow> (cell \<times> cell) list" where
  "set_location country kvs =
     (case map_of kvs (Str ''Location'') of
        None \<Rightarrow> kvs
      | Some v \<Rightarrow> map (\<lambda>(k, x). if k = Str ''Location''
                                 then (k, Str (py_str v @ '', '' @ country)) else (k, x)) kvs)"

text \<open>Line 59: \<^verbatim>\<open>del s["Affected animals"]\<close> is a KeyError on a series without
  that label.\<close>

definition del_label :: "cell \<Rightarrow> (cell \<times> cell) list \<Rightarrow> error + (cell \<times> cell) list" where
  "del_label name kvs =
     (if name \<in> set (map fst kvs) then Inr (filter (\<lambda>(k, x). k \<noteq> name) kvs)
      else Inl KeyError)"

text \<open>Lines 52 to 63: the rows of one (outbreak header, species table) pair.\<close>

definition outbreak_rows :: "table \<Rightarrow> table \<Rightarrow> nat \<Rightarrow> string \<Rightarrow> error + frame" where
  "outbreak_rows outbreak_table species_table number country =
     (case header_series outbreak_table of
        Inl e \<Rightarrow> Inl e
      | Inr hs \<Rightarrow>
         (case del_label (Str ''Affected animals'') (set_location country hs) of
            Inl e \<Rightarrow> Inl e
          | Inr hs' \<Rightarrow>
             (case insert_column 0 (Str ''Outbreak #'') (Num (int number))
                     (promote_header species_table) of
                Inl e \<Rightarrow> Inl e
              | Inr sp \<Rightarrow> assign_series hs' sp)))"

text \<open>
  The body of the loop, lines 46 to 63, for one pair of neighbouring tables: \<open>None\<close> is
  \<^verbatim>\<open>continue\<close>, a frame is what the pair appends to \<^verbatim>\<open>outbreaks\<close>.
\<close>

definition outbreak_pair :: "table \<Rightarrow> table \<Rightarrow> string \<Rightarrow> error + frame option" where
  "outbreak_pair outbreak_table species_table country =
     (case loc outbreak_table 0 0 of
        Inl e \<Rightarrow> Inl e
      | Inr (Num n) \<Rightarrow> Inr None
      | Inr (Flt x) \<Rightarrow> Inr None
      | Inr NaN \<Rightarrow> Inr None
      | Inr (Str s) \<Rightarrow>
         (case match_outbreak s of
            None \<Rightarrow> Inr None
          | Some ds \<Rightarrow>
             (case loc species_table 0 0 of
                Inl e \<Rightarrow> Inl e
              | Inr c \<Rightarrow>
                 if c \<noteq> Str ''Species'' then Inl AssertionError
                 else (case outbreak_rows outbreak_table species_table
                              (int_of_digits ds) country of
                         Inl e \<Rightarrow> Inl e
                       | Inr f \<Rightarrow> Inr (Some f)))))"

text \<open>The loop of line 45 over \<^verbatim>\<open>zip(tables, tables[1:])\<close>.\<close>

fun outbreaks_loop :: "table list \<Rightarrow> string \<Rightarrow> error + frame list" where
  "outbreaks_loop (outbreak_table # species_table # ts) country =
     (case outbreak_pair outbreak_table species_table country of
        Inl e \<Rightarrow> Inl e
      | Inr r \<Rightarrow>
         (case outbreaks_loop (species_table # ts) country of
            Inl e \<Rightarrow> Inl e
          | Inr fs \<Rightarrow> Inr (case r of None \<Rightarrow> fs | Some f \<Rightarrow> f # fs)))"
| "outbreaks_loop ts country = Inr []"

definition get_outbreaks :: "table list \<Rightarrow> string \<Rightarrow> string \<Rightarrow> error + frame" where
  "get_outbreaks tables report_id country =
     (case outbreaks_loop tables country of
        Inl e \<Rightarrow> Inl e
      | Inr [] \<Rightarrow> Inr empty_frame
      | Inr (f # fs) \<Rightarrow>
         (case concat_frames (f # fs) of
            Inl e \<Rightarrow> Inl e
          | Inr outbreaks \<Rightarrow>
             (case insert_column 0 (Str ''Report ID'') (Str report_id) outbreaks of
                Inl e \<Rightarrow> Inl e
              | Inr outbreaks' \<Rightarrow> set_index ''Report ID'' ''Outbreak #'' outbreaks')))"

section \<open>The test extractor\<close>

text \<open>The loop of lines 74 to 78: the last table labelled as the laboratory table wins.\<close>

fun tests_loop :: "frame option \<Rightarrow> table list \<Rightarrow> error + frame option" where
  "tests_loop test_table [] = Inr test_table"
| "tests_loop test_table (t # ts) =
     (case loc t 0 0 of
        Inl e \<Rightarrow> Inl e
      | Inr c \<Rightarrow>
          if c = Str ''Laboratory name and type''
          then tests_loop (Some (promote_header t)) ts
          else tests_loop test_table ts)"

text \<open>
  \<^verbatim>\<open>df.reset_index()\<close> on a frame with one unnamed index level: the index keys
  become the first column, called \<open>index\<close> (or \<open>level_0\<close> when a column \<open>index\<close> exists
  already), and the rows are numbered anew from 0.
\<close>

definition reset_index :: "frame \<Rightarrow> error + frame" where
  "reset_index f =
     (let name = (if Str ''index'' \<in> set (columns f) then Str ''level_0'' else Str ''index'')
      in if name \<in> set (columns f) then Inl ValueError
         else Inr \<lparr>index_names = [None],
                   columns = name # columns f,
                   rows = map (\<lambda>(i, (k, vs)). ([Num (int i)], (case k of [x] \<Rightarrow> x | _ \<Rightarrow> NaN) # vs))
                            (enumerate 0 (rows f))\<rparr>)"

text \<open>\<^verbatim>\<open>df.rename(columns={old: new})\<close>\<close>

definition rename_column :: "cell \<Rightarrow> cell \<Rightarrow> frame \<Rightarrow> frame" where
  "rename_column old new f = f\<lparr>columns := map (\<lambda>c. if c = old then new else c) (columns f)\<rparr>"

definition get_tests :: "table list \<Rightarrow> string \<Rightarrow> error + frame" where
  "get_tests tables report_id =
     (case tests_loop None tables of
        Inl e \<Rightarrow> Inl e
      | Inr None \<Rightarrow> Inr empty_frame
      | Inr (Some test_table) \<Rightarrow>
         (case insert_column 0 (Str ''Report ID'') (Str report_id) test_table of
            Inl e \<Rightarrow> Inl e
          | Inr t1 \<Rightarrow>
             (case reset_index t1 of
                Inl e \<Rightarrow> Inl e
              | Inr t2 \<Rightarrow>
                 set_index ''Report ID'' ''Test #''
                   (rename_column (Str ''index'') (Str ''Test #'') t2))))"

section \<open>One report\<close>

text \<open>
  \<^verbatim>\<open>process_report\<close> reads a file. The model is given what the file system and the
  HTML parser answer for it: the path, the text of the file, and the result of
  \<^verbatim>\<open>pd.read_html\<close>, which is the list of tables or the exception raised (a
  ValueError when the page has no table).
\<close>

record document =
  path :: string
  body :: string
  parsed :: "error + table list"

datatype level = Debug | Warning

type_synonym log = "(level \<times> string) list"

text \<open>\<^verbatim>\<open>re.findall("[0-9]+", s)\<close>: the maximal runs of digits, from left to right;
  \<open>run\<close> is the run being read, last digit first.\<close>

fun digit_runs :: "string \<Rightarrow> string \<Rightarrow> string list" where
  "digit_runs run [] = (if run = [] then [] else [rev run])"
| "digit_runs run (c # cs) =
     (if is_digit c then digit_runs (c # run) cs
      else (if run = [] then [] else [rev run]) @ digit_runs [] cs)"

definition findall_digits :: "string \<Rightarrow> string list" where
  "findall_digits s = digit_runs [] s"

text \<open>\<^verbatim>\<open>needle in text\<close>\<close>

fun contains :: "string \<Rightarrow> string \<Rightarrow> bool" where
  "contains needle [] = (needle = [])"
| "contains needle (c # cs) = (take (length needle) (c # cs) = needle \<or> contains needle cs)"

text \<open>
  \<^verbatim>\<open>details.Disease\<close>, \<^verbatim>\<open>details.Country\<close> and \<^verbatim>\<open>details["Report date"]\<close>
  look a label up in the report record. A label that occurs once gives its value; a
  label that occurs several times (a metadata table had a row of that label) gives
  the sub-series of all its values instead.
\<close>

datatype field = Scalar cell | Several "cell list"

definition get_field :: "series \<Rightarrow> cell \<Rightarrow> field option" where
  "get_field s k =
     (case values_of s k of
        [] \<Rightarrow> None
      | [v] \<Rightarrow> Some (Scalar v)
      | v # w # ws \<Rightarrow> Some (Several (v # w # ws)))"

text \<open>
  \<^verbatim>\<open>df.insert(pos, name, value)\<close> where the value was looked up under the label
  \<open>name\<close>. A scalar is put on every row. A sub-series brings its own index, which is
  the label repeated: a frame without rows takes that index over, getting one row
  per value with NaN in the columns it had; a frame whose row keys are that very
  index gets the values in order; any other frame with rows cannot be aligned with
  the repeated label, a ValueError.
\<close>

definition insert_field :: "nat \<Rightarrow> string \<Rightarrow> field \<Rightarrow> frame \<Rightarrow> error + frame" where
  "insert_field pos name fld df =
     (case fld of
        Scalar v \<Rightarrow> insert_column pos (Str name) v df
      | Several vs \<Rightarrow>
          if Str name \<in> set (columns df) then Inl ValueError
          else if length (columns df) < pos then Inl IndexError
          else if rows df = []
            then Inr \<lparr>index_names = [None],
                      columns = insert_at pos (Str name) (columns df),
                      rows = map (\<lambda>v. ([Str name], insert_at pos v (map (\<lambda>c. NaN) (columns df))))
                               vs\<rparr>
          else if map fst (rows df) = map (\<lambda>v. [Str name]) vs
            then Inr (df\<lparr>columns := insert_at pos (Str name) (columns df),
                         rows := map (\<lambda>((k, ws), v). (k, insert_at pos v ws)) (zip (rows df) vs)\<rparr>)
          else Inl ValueError)"

text \<open>
  Lines 104 to 107: the three report fields become the first columns of a frame.
  \<^verbatim>\<open>details["Report date"]\<close> is a KeyError when no metadata table had that label;
  a missing attribute would be an AttributeError.
\<close>

definition add_report_fields ::
    "field option \<Rightarrow> field option \<Rightarrow> field option \<Rightarrow> frame \<Rightarrow> error + frame" where
  "add_report_fields disease country report_date df =
     (case disease of
        None \<Rightarrow> Inl AttributeError
      | Some dis \<Rightarrow>
         (case insert_field 0 ''Disease'' dis df of
            Inl e \<Rightarrow> Inl e
          | Inr df1 \<Rightarrow>
             (case country of
                None \<Rightarrow> Inl AttributeError
              | Some cou \<Rightarrow>
                 (case insert_field 1 ''Country'' cou df1 of
                    Inl e \<Rightarrow> Inl e
                  | Inr df2 \<Rightarrow>
                     (case report_date of
                        None \<Rightarrow> Inl KeyError
                      | Some dat \<Rightarrow> insert_field 2 ''Report date'' dat df2)))))"

text \<open>
  The text an f-string prints for the country that line 102 hands to the outbreak
  extractor. For a sub-series Python prints a listing of its entries; the model
  renders it as one line per entry. No row that \<^verbatim>\<open>process_report\<close> returns holds that
  text: an outbreak frame with rows refuses the sub-series at line 106, and one
  without rows has no cell to hold it.
\<close>

definition field_text :: "string \<Rightarrow> field \<Rightarrow> string" where
  "field_text name fld =
     (case fld of
        Scalar v \<Rightarrow> py_str v
      | Several vs \<Rightarrow> concat (map (\<lambda>v. name @ ''    '' @ py_str v @ [CHR 0x0A]) vs)
                       @ ''dtype: object'')"

text \<open>Lines 102 to 108, for a report record and the text of its country.\<close>

definition tabulate_report ::
    "table list \<Rightarrow> string \<Rightarrow> series \<Rightarrow> string \<Rightarrow> error + (series \<times> frame \<times> frame)" where
  "tabulate_report tables report_id details country =
     (case get_outbreaks tables report_id country of
        Inl e \<Rightarrow> Inl e
      | Inr outbreaks \<Rightarrow>
         (case get_tests tables report_id of
            Inl e \<Rightarrow> Inl e
          | Inr tests \<Rightarrow>
             (case add_report_fields (get_field details (Str ''Disease''))
                     (get_field details (Str ''Country''))
                     (get_field details (Str ''Report date'')) outbreaks of
                Inl e \<Rightarrow> Inl e
              | Inr outbreaks' \<Rightarrow>
                 (case add_report_fields (get_field details (Str ''Disease''))
                         (get_field details (Str ''Country''))
                         (get_field details (Str ''Report date'')) tests of
                    Inl e \<Rightarrow> Inl e
                  | Inr tests' \<Rightarrow> Inr (details, outbreaks', tests')))))"

text \<open>Lines 100 to 108.\<close>

definition extract_report :: "table list \<Rightarrow> string \<Rightarrow> error + (series \<times> frame \<times> frame)" where
  "extract_report tables p =
     (case findall_digits p of
        [] \<Rightarrow> Inl IndexError
      | report_id # _ \<Rightarrow>
         (case get_details tables report_id of
            Inl e \<Rightarrow> Inl e
          | Inr details \<Rightarrow>
             (case get_field details (Str ''Country'') of
                None \<Rightarrow> Inl AttributeError
              | Some country \<Rightarrow>
                  tabulate_report tables report_id details (field_text ''Country'' country))))"

definition is_placeholder :: "document \<Rightarrow> bool" where
  "is_placeholder d = (parsed d = Inl ValueError \<and> contains ''Application Error'' (body d))"

definition process_report :: "document \<Rightarrow> log \<times> (error + (series \<times> frame \<times> frame))" where
  "process_report d =
     (case parsed d of
        Inl e \<Rightarrow>
          if e = ValueError \<and> contains ''Application Error'' (body d)
          then ([(Debug, ''Reading '' @ path d),
                 (Warning, ''Report in '' @ path d @ '' was affected by an Application Error'')],
                Inr (empty_series, empty_frame, empty_frame))
          else ([(Debug, ''Reading '' @ path d)], Inl e)
      | Inr tables \<Rightarrow> ([(Debug, ''Reading '' @ path d)], extract_report tables (path d)))"

section \<open>The batch\<close>

text \<open>
  Lines 112 to 114: the reports are processed in order; the first exception ends the
  batch. Unpacking the results of an empty batch into three names is a ValueError.
\<close>

fun run_reports :: "document list \<Rightarrow> log \<times> (error + (series \<times> frame \<times> frame) list)" where
  "run_reports [] = ([], Inr [])"
| "run_reports (d # ds) =
     (case process_report d of
        (l, Inl e) \<Rightarrow> (l, Inl e)
      | (l, Inr t) \<Rightarrow>
         (case run_reports ds of
            (l', Inl e) \<Rightarrow> (l @ l', Inl e)
          | (l', Inr ts) \<Rightarrow> (l @ l', Inr (t # ts))))"

text \<open>
  Line 115: \<^verbatim>\<open>pd.concat(reports, axis=1, sort=False).transpose()\<close> has one row per
  record, labelled by the name of the record (an unnamed record by its number among
  the unnamed ones), under the union of the labels of all records in order of first
  appearance. Records whose labels all agree are stacked as they are; otherwise a
  record with a repeated label cannot be aligned.
\<close>

fun row_labels :: "nat \<Rightarrow> series list \<Rightarrow> cell list" where
  "row_labels n [] = []"
| "row_labels n (s # ss) =
     (case sname s of
        None \<Rightarrow> Num (int n) # row_labels (Suc n) ss
      | Some name \<Rightarrow> Str name # row_labels n ss)"

definition concat_records :: "series list \<Rightarrow> error + frame" where
  "concat_records ss =
     (case ss of
        [] \<Rightarrow> Inl ValueError
      | s # rest \<Rightarrow>
          if \<forall>r \<in> set rest. map fst (items r) = map fst (items s)
          then Inr \<lparr>index_names = [None], columns = map fst (items s),
                    rows = map (\<lambda>(l, r). ([l], map snd (items r))) (zip (row_labels 0 ss) ss)\<rparr>
          else if \<exists>r \<in> set ss. \<not> distinct (map fst (items r)) then Inl ReindexError
          else (let cols = union_labels (map (\<lambda>r. map fst (items r)) ss)
                in Inr \<lparr>index_names = [None], columns = cols,
                        rows = map (\<lambda>(l, r). ([l], reindex_row cols (map fst (items r))
                                                     (map snd (items r))))
                                 (zip (row_labels 0 ss) ss)\<rparr>))"

text \<open>Line 116: \<^verbatim>\<open>dropna(how="all", axis=0)\<close> drops the rows that have nothing but
  NaN.\<close>

definition dropna_all :: "frame \<Rightarrow> frame" where
  "dropna_all f = f\<lparr>rows := filter (\<lambda>(k, vs). \<exists>v \<in> set vs. v \<noteq> NaN) (rows f)\<rparr>"

definition process_reports :: "document list \<Rightarrow> log \<times> (error + (frame \<times> frame \<times> frame))" where
  "process_reports docs =
     (case run_reports docs of
        (l, Inl e) \<Rightarrow> (l, Inl e)
      | (l, Inr []) \<Rightarrow> (l, Inl ValueError)
      | (l, Inr (t # ts)) \<Rightarrow>
          (l, case concat_records (map fst (t # ts)) of
                Inl e \<Rightarrow> Inl e
              | Inr reports \<Rightarrow>
                 (case concat_frames (map (\<lambda>x. fst (snd x)) (t # ts)) of
                    Inl e \<Rightarrow> Inl e
                  | Inr outbreaks \<Rightarrow>
                     (case concat_frames (map (\<lambda>x. snd (snd x)) (t # ts)) of
                        Inl e \<Rightarrow> Inl e
                      | Inr tests \<Rightarrow>
                          Inr ((dropna_all reports)\<lparr>index_names := [Some ''Report ID'']\<rparr>,
                               outbreaks, tests)))))"

section \<open>Reference descriptions used in the statements\<close>

text \<open>The (label, value) entries a two-column table contributes: one per row, from
  its column 0 to its column 1.\<close>

definition kv_rows :: "table \<Rightarrow> (cell \<times> cell) list" where
  "kv_rows t = map (\<lambda>r. (cell_at t r 0, cell_at t r 1)) [0..<length t]"

definition is_metadata_table :: "table \<Rightarrow> bool" where
  "is_metadata_table t = (cell_at t 0 0 \<in> set metadata_labels)"

text \<open>A laboratory table with two data rows, for the examples.\<close>

definition lab2 :: table where
  "lab2 = [[Str ''Laboratory name and type'', Str ''Test''],
          [Str ''National lab'', Str ''PCR''], [Str ''Regional lab'', Str ''ELISA'']]"

text \<open>Tables of a small report, for the examples.\<close>

definition report_type_table :: table where
  "report_type_table =
     [[Str ''Report type'', Str ''Immediate notification''],
      [Str ''Report date'', Str ''2020-01-01'']]"

definition summary_table :: table where
  "summary_table = [[Str ''Summary'', Str ''African swine fever, Viet Nam'']]"

definition header_hanoi :: table where
  "header_hanoi =
     [[Str ''Outbreak 1'', Str ''Hanoi''],
      [Str ''Date of start'', Str ''2020-01-01''],
      [Str ''Affected animals'', NaN]]"

definition species_swine :: table where
  "species_swine =
     [[Str ''Species'', Str ''Cases''],
      [Str ''Swine'', Str ''10''],
      [Str ''Wild boar'', Str ''2'']]"

definition header_hue :: table where
  "header_hue = [[Str ''Outbreak 2'', Str ''Hue''], [Str ''Epidemiological unit'', Str ''Farm'']]"

text \<open>The first maximal run of digits of a text: what is left of the text after its
  leading non-digits, up to the next non-digit.\<close>

definition first_digit_run :: "string \<Rightarrow> string" where
  "first_digit_run p = takeWhile is_digit (dropWhile (\<lambda>c. \<not> is_digit c) p)"

text \<open>Documents for the examples: a report stored under a directory whose name has
  digits, a report whose second outbreak header is followed by the laboratory table,
  and the page the platform serves when it fails.\<close>

definition good_document :: document where
  "good_document =
     \<lparr>path = ''out2020/123.html'', body = ''<html>...</html>'',
      parsed = Inr [report_type_table, summary_table, header_hanoi, species_swine, lab2]\<rparr>"

definition mismatch_document :: document where
  "mismatch_document =
     \<lparr>path = ''out/124.html'', body = ''<html>...</html>'',
      parsed = Inr [report_type_table, summary_table, header_hue, lab2]\<rparr>"

definition placeholder_document :: document where
  "placeholder_document =
     \<lparr>path = ''out/125.html'', body = ''<h1>Application Error</h1>'',
      parsed = Inl ValueError\<rparr>"

text \<open>A report record that came out of a parsed page: it is named and starts with its
  disease.\<close>

definition is_real_record :: "series \<Rightarrow> bool" where
  "is_real_record s =
     (sname s \<noteq> None \<and> map fst (take 1 (items s)) = [Str ''Disease''] \<and>
      list_all is_text (map snd (take 1 (items s))))"

definition record_key :: "series \<Rightarrow> cell list" where
  "record_key s = (case sname s of None \<Rightarrow> [NaN] | Some name \<Rightarrow> [Str name])"

text \<open>
  The outbreak pairs of a report and what the outbreak extractor is expected to make of
  them. A table is an outbreak header when its cell (0,0) is a text that starts with
  \<open>Outbreak\<close>, a space and digits; the digits are its outbreak number. The pairs of a
  report are the neighbouring tables whose first is an outbreak header.
\<close>

definition is_outbreak_header :: "table \<Rightarrow> bool" where
  "is_outbreak_header t =
     (case loc t 0 0 of Inr (Str s) \<Rightarrow> match_outbreak s \<noteq> None | _ \<Rightarrow> False)"


definition outbreak_pairs :: "table list \<Rightarrow> (table \<times> table) list" where
  "outbreak_pairs tables = filter (\<lambda>(h, sp). is_outbreak_header h) (zip tables (tl tables))"

text \<open>
  The fields a header broadcasts: its location with the country appended, then its
  other rows from column 0 to column 1, without \<open>Affected animals\<close>.
\<close>

definition broadcast_fields :: "table \<Rightarrow> string \<Rightarrow> (cell \<times> cell) list" where
  "broadcast_fields h country =
     (Str ''Location'', Str (py_str (cell_at h 0 1) @ '', '' @ country)) #
     filter (\<lambda>(k, v). k \<noteq> Str ''Affected animals'')
       (map (\<lambda>r. (cell_at h r 0, cell_at h r 1)) [1..<length h])"









text \<open>
  How many rows the two extractors make for a report: one per data row of the species
  table of each outbreak pair, and one per data row of the last laboratory table.
\<close>

definition outbreak_row_count :: "table list \<Rightarrow> nat" where
  "outbreak_row_count tables = sum_list (map (\<lambda>(h, sp). length sp - 1) (outbreak_pairs tables))"

definition is_lab_table :: "table \<Rightarrow> bool" where
  "is_lab_table t = (loc t 0 0 = Inr (Str ''Laboratory name and type''))"

definition test_row_count :: "table list \<Rightarrow> nat" where
  "test_row_count tables =
     (case filter is_lab_table tables of [] \<Rightarrow> 0 | l # ls \<Rightarrow> length (last (l # ls)) - 1)"

text \<open>A report whose metadata tables give \<open>Report date\<close> twice, and which has neither
  outbreaks nor laboratory tests.\<close>

definition repeated_date_document :: document where
  "repeated_date_document =
     \<lparr>path = ''out/129.html'', body = ''<html>...</html>'',
      parsed = Inr [report_type_table, summary_table,
                    [[Str ''Measures applied'', Str ''Quarantine''],
                     [Str ''Report date'', Str ''2020-02-02'']]]\<rparr>"



section \<open>Properties\<close>

subsection \<open>The report extractor\<close>

lemma details_loop_append:
  "details_loop out ts = Inr out' \<Longrightarrow>
     out' = out @ concat (map kv_rows (filter is_metadata_table ts))"
proof (induction ts arbitrary: out)
  case Nil
  then show ?case by simp
next
  case (Cons t ts)
  show ?case
  proof (cases "loc t 0 0")
    case (Inl e)
    with Cons.prems show ?thesis by simp
  next
    case (Inr c)
    then have c: "c = cell_at t 0 0"
      by (simp add: loc_def split: if_splits)
    show ?thesis
    proof (cases "c \<in> set metadata_labels")
      case True
      with Cons.prems Inr obtain s where s: "set_index0_col1 t = Inr s"
        and loop: "details_loop (out @ s) ts = Inr out'"
        by (auto split: sum.splits)
      from s have "s = kv_rows t"
        by (simp add: set_index0_col1_def kv_rows_def split: if_splits)
      with Cons.IH [OF loop] True c show ?thesis by (simp add: is_metadata_table_def)
    next
      case False
      with Cons.prems Inr have "details_loop out ts = Inr out'" by simp
      from Cons.IH [OF this] False c show ?thesis by (simp add: is_metadata_table_def)
    qed
  qed
qed

lemma partition_comma_split:
  assumes "CHR '','' \<notin> set a"
  shows "partition_comma (a @ CHR '','' # b) = (a, b)"
proof -
  have "\<forall>x \<in> set a. x \<noteq> CHR '',''" using assms by auto
  then have "takeWhile (\<lambda>c. c \<noteq> CHR '','') (a @ CHR '','' # b) = a"
    and "dropWhile (\<lambda>c. c \<noteq> CHR '','') (a @ CHR '','' # b) = CHR '','' # b"
    by (simp_all add: takeWhile_append2 dropWhile_append2)
  then show ?thesis by (simp add: partition_comma_def)
qed

lemma get_details_items:
  assumes "get_details tables report_id = Inr d"
  shows "\<exists>s. loc (tables ! 1) 0 1 = Inr (Str s) \<and> sname d = Some report_id \<and>
           items d = [(Str ''Disease'', Str (fst (partition_comma s))),
                      (Str ''Country'', Str (snd (partition_comma s))),
                      (Str ''Url'', Str (REPORT_URL report_id))]
                     @ concat (map kv_rows (filter is_metadata_table tables))"
  using assms
  by (auto simp: get_details_def Let_def split: if_splits sum.splits cell.splits prod.splits
           dest!: details_loop_append)

text \<open>
  Claim C2, as the code has it. The cell that is split is the one in row 0, column 1 of
  \<^verbatim>\<open>tables[1]\<close> (the second cell of its first row, \<^verbatim>\<open>.loc[0, 1]\<close>), not cell
  (0,0); and when that cell is the text \<open>a,b\<close> with no comma in \<open>a\<close>, a report record
  that is returned has \<open>a\<close> as its disease and \<open>b\<close> as its country, exactly as \<open>b\<close>
  stands after the comma: nothing is trimmed.
\<close>

theorem get_details_disease_country:
  assumes "get_details tables report_id = Inr d"
    and "loc (tables ! 1) 0 1 = Inr (Str (a @ '','' @ b))"
    and "CHR '','' \<notin> set a"
  shows "take 2 (items d) = [(Str ''Disease'', Str a), (Str ''Country'', Str b)]"
proof -
  from get_details_items [OF assms(1)] assms(2)
  have "items d = [(Str ''Disease'', Str (fst (partition_comma (a @ '','' @ b)))),
                   (Str ''Country'', Str (snd (partition_comma (a @ '','' @ b)))),
                   (Str ''Url'', Str (REPORT_URL report_id))]
                  @ concat (map kv_rows (filter is_metadata_table tables))"
    by auto
  then show ?thesis using partition_comma_split [OF assms(3), of b] by simp
qed

theorem get_details_disease_country_witness:
  "take 2 (items \<lparr>sname = Some ''12345'',
             items = [(Str ''Disease'', Str ''African swine fever''),
                      (Str ''Country'', Str '' Viet Nam''),
                      (Str ''Url'', Str (REPORT_URL ''12345''))]\<rparr>)
     = [(Str ''Disease'', Str ''African swine fever''), (Str ''Country'', Str '' Viet Nam'')]"
proof -
  let ?tables = "[[[Str ''Report'', NaN]],
                  [[Str ''Disease, country'', Str ''African swine fever, Viet Nam'']]]"
  have 1: "get_details ?tables ''12345'' = Inr \<lparr>sname = Some ''12345'',
             items = [(Str ''Disease'', Str ''African swine fever''),
                      (Str ''Country'', Str '' Viet Nam''),
                      (Str ''Url'', Str (REPORT_URL ''12345''))]\<rparr>"
    by code_simp
  have 2: "loc (?tables ! 1) 0 1 = Inr (Str (''African swine fever'' @ '','' @ '' Viet Nam''))"
    by code_simp
  have 3: "CHR '','' \<notin> set ''African swine fever''" by simp
  show ?thesis by (rule get_details_disease_country [OF 1 2 3])
qed

text \<open>
  The claim as the specification words it fails: with \<open>African swine fever, Viet Nam\<close>
  in cell (0,0) of \<^verbatim>\<open>tables[1]\<close> and another text in cell (0,1), disease and country
  come from cell (0,1), and the country keeps the blank after the comma.
\<close>

theorem get_details_first_cell_counterexample:
  "get_details [[[Str ''Report'', NaN]],
                [[Str ''African swine fever, Viet Nam'', Str ''Avian influenza, Japan'']]] ''12345''
   = Inr \<lparr>sname = Some ''12345'',
          items = [(Str ''Disease'', Str ''Avian influenza''),
                   (Str ''Country'', Str '' Japan''),
                   (Str ''Url'', Str ''https://www.oie.int/wahis_2/public/wahid.php/Reviewreport/Review?reportid=12345'')]\<rparr>"
  by code_simp

text \<open>
  Claim C7, as the code has it. The record the report extractor returns holds, after
  its three fields Disease, Country and Url, one entry for every row of every metadata
  field table, in table order and row order: \<^verbatim>\<open>Series.append\<close> concatenates, so a
  label that recurs is held once per occurrence, and no entry replaces an earlier one.
\<close>

theorem get_details_keeps_every_row:
  assumes "get_details tables report_id = Inr d"
  shows "drop 3 (items d) = concat (map kv_rows (filter is_metadata_table tables))"
  using get_details_items [OF assms] by auto

theorem get_details_keeps_every_row_witness:
  "drop 3 [(Str ''Disease'', Str ''Rabies''), (Str ''Country'', Str '' Peru''),
           (Str ''Url'', Str (REPORT_URL ''9'')),
           (Str ''Report type'', Str ''Immediate''), (Str ''Report date'', Str ''2020-01-01''),
           (Str ''Measures applied'', Str ''Quarantine''), (Str ''Report date'', Str ''2020-02-02'')]
   = concat (map kv_rows (filter is_metadata_table
       [[[Str ''Report type'', Str ''Immediate''], [Str ''Report date'', Str ''2020-01-01'']],
        [[Str ''Summary'', Str ''Rabies, Peru'']],
        [[Str ''Measures applied'', Str ''Quarantine''], [Str ''Report date'', Str ''2020-02-02'']]]))"
proof -
  have "get_details
       [[[Str ''Report type'', Str ''Immediate''], [Str ''Report date'', Str ''2020-01-01'']],
        [[Str ''Summary'', Str ''Rabies, Peru'']],
        [[Str ''Measures applied'', Str ''Quarantine''], [Str ''Report date'', Str ''2020-02-02'']]]
       ''9''
     = Inr \<lparr>sname = Some ''9'', items =
          [(Str ''Disease'', Str ''Rabies''), (Str ''Country'', Str '' Peru''),
           (Str ''Url'', Str (REPORT_URL ''9'')),
           (Str ''Report type'', Str ''Immediate''), (Str ''Report date'', Str ''2020-01-01''),
           (Str ''Measures applied'', Str ''Quarantine''), (Str ''Report date'', Str ''2020-02-02'')]\<rparr>"
    by code_simp
  from get_details_keeps_every_row [OF this] show ?thesis by simp
qed

text \<open>
  The claim as worded, that a recurring label is held once with the value seen last,
  fails: here \<open>Report date\<close> occurs in two metadata tables and the record holds both
  entries.
\<close>

theorem get_details_last_seen_counterexample:
  "get_details
       [[[Str ''Report type'', Str ''Immediate''], [Str ''Report date'', Str ''2020-01-01'']],
        [[Str ''Summary'', Str ''Rabies, Peru'']],
        [[Str ''Measures applied'', Str ''Quarantine''], [Str ''Report date'', Str ''2020-02-02'']]]
       ''9''
     = Inr \<lparr>sname = Some ''9'', items =
          [(Str ''Disease'', Str ''Rabies''), (Str ''Country'', Str '' Peru''),
           (Str ''Url'', Str ''https://www.oie.int/wahis_2/public/wahid.php/Reviewreport/Review?reportid=9''),
           (Str ''Report type'', Str ''Immediate''), (Str ''Report date'', Str ''2020-01-01''),
           (Str ''Measures applied'', Str ''Quarantine''), (Str ''Report date'', Str ''2020-02-02'')]\<rparr>"
  by code_simp

subsection \<open>The test extractor\<close>

lemma tests_loop_append:
  "tests_loop acc (pre @ ts) =
     (case tests_loop acc pre of Inl e \<Rightarrow> Inl e | Inr a \<Rightarrow> tests_loop a ts)"
  by (induction pre arbitrary: acc) (auto split: sum.splits)

lemma tests_loop_no_lab:
  "\<forall>u \<in> set ts. loc u 0 0 \<noteq> Inr (Str ''Laboratory name and type'') \<Longrightarrow>
   tests_loop acc ts = Inr r \<Longrightarrow> r = acc"
  by (induction ts arbitrary: acc) (auto split: sum.splits if_splits)

lemma tests_loop_last:
  assumes "tests_loop None (pre @ t # post) = Inr r"
    and "loc t 0 0 = Inr (Str ''Laboratory name and type'')"
    and "\<forall>u \<in> set post. loc u 0 0 \<noteq> Inr (Str ''Laboratory name and type'')"
  shows "r = Some (promote_header t)"
proof -
  from assms(1) obtain a where "tests_loop a (t # post) = Inr r"
    by (auto simp: tests_loop_append split: sum.splits)
  with assms(2) have "tests_loop (Some (promote_header t)) post = Inr r" by simp
  from tests_loop_no_lab [OF assms(3) this] show ?thesis .
qed

lemma map_enumerate_snd:
  "map (\<lambda>(i, x). g x) (enumerate n xs) = map g xs"
  by (induction xs arbitrary: n) auto

lemma enumerate_map:
  "enumerate n (map g xs) = map (\<lambda>(i, x). (i, g x)) (enumerate n xs)"
  by (induction xs arbitrary: n) auto

lemma insert_column_front:
  assumes "insert_column 0 name v f = Inr g"
  shows "g = f\<lparr>columns := name # columns f, rows := map (\<lambda>(k, vs). (k, v # vs)) (rows f)\<rparr>"
    and "name \<notin> set (columns f)"
  using assms by (auto simp: insert_column_def insert_at_def split: if_splits)

lemma reset_index_result:
  assumes "reset_index f = Inr g" and "Str ''index'' \<notin> set (columns f)"
  shows "columns g = Str ''index'' # columns f"
    and "rows g = map (\<lambda>(i, (k, vs)). ([Num (int i)], (case k of [x] \<Rightarrow> x | _ \<Rightarrow> NaN) # vs))
                    (enumerate 0 (rows f))"
  using assms by (auto simp: reset_index_def split: if_splits)

lemma set_index_result:
  assumes "set_index a b f = Inr g"
  shows "index_names g = [Some a, Some b]"
    and "rows g = map (\<lambda>(k, vs). ([column_value f (Str a) vs, column_value f (Str b) vs],
                          drop_columns [Str a, Str b] (columns f) vs)) (rows f)"
    and "columns g = drop_columns [Str a, Str b] (columns f) (columns f)"
  using assms by (auto simp: set_index_def split: if_splits)

lemma tests_loop_total:
  "\<forall>u \<in> set ts. \<exists>c. loc u 0 0 = Inr c \<Longrightarrow> \<exists>r. tests_loop acc ts = Inr r"
  by (induction ts arbitrary: acc) auto

lemma get_tests_returns:
  assumes loop: "tests_loop None tables = Inr (Some tt)"
    and fresh: "Str ''index'' \<notin> set (columns tt)" "Str ''Report ID'' \<notin> set (columns tt)"
       "Str ''Test #'' \<notin> set (columns tt)"
  shows "\<exists>f. get_tests tables report_id = Inr f"
proof -
  have ren: "map (\<lambda>c. if c = Str ''index'' then Str ''Test #'' else c) (columns tt) = columns tt"
    using fresh(1) by (intro map_idI) auto
  show ?thesis
    using loop fresh
    by (simp add: get_tests_def insert_column_def insert_at_def reset_index_def
          rename_column_def set_index_def ren)
qed

lemma drop_columns_fresh:
  assumes "\<forall>c \<in> set cols. c \<notin> set names" and "length vs = length cols"
  shows "drop_columns names cols vs = vs"
proof -
  have "filter (\<lambda>(c, x). c \<notin> set names) (zip cols vs) = zip cols vs"
    using assms(1) by (auto simp: filter_id_conv dest: set_zip_leftD)
  then show ?thesis using assms(2) by (simp add: drop_columns_def)
qed

lemma get_tests_frame:
  assumes loop: "tests_loop None tables = Inr (Some tt)"
    and fresh: "Str ''index'' \<notin> set (columns tt)" "Str ''Report ID'' \<notin> set (columns tt)"
       "Str ''Test #'' \<notin> set (columns tt)"
    and aligned: "\<forall>(k, vs) \<in> set (rows tt). length vs = length (columns tt)"
  shows "get_tests tables report_id =
           Inr \<lparr>index_names = [Some ''Report ID'', Some ''Test #''],
                columns = columns tt,
                rows = map (\<lambda>(k, vs). ([Str report_id, (case k of [x] \<Rightarrow> x | _ \<Rightarrow> NaN)], vs))
                         (rows tt)\<rparr>"
proof -
  from get_tests_returns [OF loop fresh] obtain f where res: "get_tests tables report_id = Inr f"
    by blast
  from res loop obtain t1 t2 where
    t1: "insert_column 0 (Str ''Report ID'') (Str report_id) tt = Inr t1"
    and t2: "reset_index t1 = Inr t2"
    and f: "set_index ''Report ID'' ''Test #'' (rename_column (Str ''index'') (Str ''Test #'') t2) = Inr f"
    by (auto simp: get_tests_def split: sum.splits)
  let ?t3 = "rename_column (Str ''index'') (Str ''Test #'') t2"
  let ?names = "[Str ''Report ID'', Str ''Test #'']"
  from insert_column_front [OF t1]
  have c1: "columns t1 = Str ''Report ID'' # columns tt"
    and r1: "rows t1 = map (\<lambda>(k, vs). (k, Str report_id # vs)) (rows tt)"
    by simp_all
  from fresh(1) c1 have "Str ''index'' \<notin> set (columns t1)" by simp
  from reset_index_result [OF t2 this] c1 r1
  have c2: "columns t2 = Str ''index'' # Str ''Report ID'' # columns tt"
    and r2: "rows t2 = map (\<lambda>(i, (k, vs)). ([Num (int i)], (case k of [x] \<Rightarrow> x | _ \<Rightarrow> NaN) # vs))
                    (enumerate 0 (map (\<lambda>(k, vs). (k, Str report_id # vs)) (rows tt)))"
    by simp_all
  have ren: "map (\<lambda>c. if c = Str ''index'' then Str ''Test #'' else c) (columns tt) = columns tt"
    using fresh(1) by (intro map_idI) auto
  have c3: "columns ?t3 = Str ''Test #'' # Str ''Report ID'' # columns tt"
    and r3: "rows ?t3 = rows t2"
    using c2 ren by (simp_all add: rename_column_def)
  have key: "column_value ?t3 (Str ''Report ID'') (x # y # vs) = y"
            "column_value ?t3 (Str ''Test #'') (x # y # vs) = x" for x y vs
    by (simp_all add: column_value_def c3)
  have dropc: "drop_columns ?names (columns ?t3) (x # y # vs) = vs"
    if "length vs = length (columns tt)" for x y vs
  proof -
    have "drop_columns ?names (columns ?t3) (x # y # vs) = drop_columns ?names (columns tt) vs"
      by (simp add: drop_columns_def c3)
    also have "\<dots> = vs"
      using fresh(2,3) that by (intro drop_columns_fresh) auto
    finally show ?thesis .
  qed
  have cols: "columns f = columns tt"
  proof -
    have "columns f = drop_columns ?names (columns tt) (columns tt)"
      unfolding set_index_result(3) [OF f] by (simp add: drop_columns_def c3)
    also have "\<dots> = columns tt"
      using fresh(2,3) by (intro drop_columns_fresh) auto
    finally show ?thesis .
  qed
  have "rows f = map (\<lambda>(k, vs). ([Str report_id, (case k of [x] \<Rightarrow> x | _ \<Rightarrow> NaN)], vs)) (rows tt)"
  proof -
    have "rows f = map (\<lambda>(i, (k, vs)).
                     ([Str report_id, (case k of [x] \<Rightarrow> x | _ \<Rightarrow> NaN)],
                      drop_columns ?names (columns ?t3)
                        ((case k of [x] \<Rightarrow> x | _ \<Rightarrow> NaN) # Str report_id # vs)))
                   (enumerate 0 (rows tt))"
      unfolding set_index_result(2) [OF f] r3 r2
      by (simp add: enumerate_map key comp_def split_beta)
    also have "\<dots> = map (\<lambda>(i, (k, vs)). ([Str report_id, (case k of [x] \<Rightarrow> x | _ \<Rightarrow> NaN)], vs))
                   (enumerate 0 (rows tt))"
    proof (rule map_cong [OF refl])
      fix x assume "x \<in> set (enumerate 0 (rows tt))"
      then have "snd x \<in> set (map snd (enumerate 0 (rows tt)))" unfolding set_map by (rule imageI)
      then have "snd x \<in> set (rows tt)" by simp
      with aligned have "length (snd (snd x)) = length (columns tt)" by (auto simp: split_beta)
      from dropc [OF this]
      show "(case x of (i, (k, vs)) \<Rightarrow>
               ([Str report_id, (case k of [x] \<Rightarrow> x | _ \<Rightarrow> NaN)],
                drop_columns ?names (columns ?t3)
                  ((case k of [x] \<Rightarrow> x | _ \<Rightarrow> NaN) # Str report_id # vs)))
            = (case x of (i, (k, vs)) \<Rightarrow> ([Str report_id, (case k of [x] \<Rightarrow> x | _ \<Rightarrow> NaN)], vs))"
        by (simp add: split_beta)
    qed
    also have "\<dots> = map (\<lambda>(k, vs). ([Str report_id, (case k of [x] \<Rightarrow> x | _ \<Rightarrow> NaN)], vs)) (rows tt)"
      by (rule map_enumerate_snd)
    finally show ?thesis .
  qed
  with cols set_index_result(1) [OF f] res show ?thesis by simp
qed

text \<open>
  Claim C4, as the code has it. When every table of the report has a cell (0,0), \<open>t\<close> is
  the last table whose cell (0,0) is \<open>Laboratory name and type\<close>, and no cell of its
  first row is \<open>index\<close>, \<open>Report ID\<close> or \<open>Test #\<close>, the test extractor returns the frame
  keyed by (Report ID, Test #) whose columns are headed by the cells of row 0 of \<open>t\<close>
  and whose rows are the rows 1, ..., M of \<open>t\<close>, in order, the row with the cells of
  row \<open>r\<close> of \<open>t\<close> under the key (report_id, r): the test number of a data row is the
  row number it had in the parsed table, where the promoted header row is row 0, so
  the numbers run from 1 to M and not from 0 to M-1.
\<close>

theorem get_tests_sequence_numbers:
  assumes tables: "tables = pre @ t # post"
    and cells: "\<forall>u \<in> set tables. \<exists>c. loc u 0 0 = Inr c"
    and lab: "loc t 0 0 = Inr (Str ''Laboratory name and type'')"
    and last: "\<forall>u \<in> set post. loc u 0 0 \<noteq> Inr (Str ''Laboratory name and type'')"
    and fresh: "\<forall>c \<in> {Str ''index'', Str ''Report ID'', Str ''Test #''}.
                  c \<notin> set (map (cell_at t 0) [0..<ncols t])"
  shows "get_tests tables report_id =
           Inr \<lparr>index_names = [Some ''Report ID'', Some ''Test #''],
                columns = map (cell_at t 0) [0..<ncols t],
                rows = map (\<lambda>r. ([Str report_id, Num (int r)], map (cell_at t r) [0..<ncols t]))
                         [1..<length t]\<rparr>"
proof -
  from tests_loop_total [OF cells] obtain r where r: "tests_loop None tables = Inr r" by blast
  with tables have "tests_loop None (pre @ t # post) = Inr r" by simp
  from tests_loop_last [OF this lab last] r
  have loop: "tests_loop None tables = Inr (Some (promote_header t))" by simp
  have cols: "columns (promote_header t) = map (cell_at t 0) [0..<ncols t]"
    by (simp add: promote_header_def)
  from fresh cols have f1: "Str ''index'' \<notin> set (columns (promote_header t))"
    and f2: "Str ''Report ID'' \<notin> set (columns (promote_header t))"
    and f3: "Str ''Test #'' \<notin> set (columns (promote_header t))"
    by simp_all
  have al: "\<forall>(k, vs) \<in> set (rows (promote_header t)). length vs = length (columns (promote_header t))"
    by (auto simp: promote_header_def)
  show ?thesis
    unfolding get_tests_frame [OF loop f1 f2 f3 al]
    by (simp add: promote_header_def comp_def)
qed

theorem get_tests_sequence_numbers_witness:
  "get_tests [[[Str ''Report type'', Str ''Immediate'']], lab2] ''77'' =
     Inr \<lparr>index_names = [Some ''Report ID'', Some ''Test #''],
          columns = [Str ''Laboratory name and type'', Str ''Test''],
          rows = [([Str ''77'', Num 1], [Str ''National lab'', Str ''PCR'']),
                  ([Str ''77'', Num 2], [Str ''Regional lab'', Str ''ELISA''])]\<rparr>"
proof -
  let ?r = "[[Str ''Report type'', Str ''Immediate'']]"
  have 1: "[?r, lab2] = [?r] @ lab2 # []" by simp
  have 2: "\<forall>u \<in> set [?r, lab2]. \<exists>c. loc u 0 0 = Inr c"
    by (simp add: loc_def ncols_def cell_at_def lab2_def)
  have 3: "loc lab2 0 0 = Inr (Str ''Laboratory name and type'')"
    by (simp add: loc_def ncols_def cell_at_def lab2_def)
  have 4: "\<forall>u \<in> set []. loc u 0 0 \<noteq> Inr (Str ''Laboratory name and type'')" by simp
  have 5: "\<forall>c \<in> {Str ''index'', Str ''Report ID'', Str ''Test #''}.
                  c \<notin> set (map (cell_at lab2 0) [0..<ncols lab2])"
    by (simp add: ncols_def cell_at_def lab2_def upt_rec)
  have 6: "map (cell_at lab2 0) [0..<ncols lab2] = [Str ''Laboratory name and type'', Str ''Test'']"
    by code_simp
  have 7: "map (\<lambda>r. ([Str ''77'', Num (int r)], map (cell_at lab2 r) [0..<ncols lab2])) [1..<length lab2]
           = [([Str ''77'', Num 1], [Str ''National lab'', Str ''PCR'']),
              ([Str ''77'', Num 2], [Str ''Regional lab'', Str ''ELISA''])]"
    by code_simp
  show ?thesis
    using get_tests_sequence_numbers [OF 1 2 3 4 5, of "''77''"] unfolding 6 7 .
qed

text \<open>
  The claim as worded, that the numbers are 0, ..., M-1, fails: the one data row of this
  laboratory table gets test number 1.
\<close>

theorem get_tests_zero_based_counterexample:
  "get_tests [[[Str ''Report type'', Str ''Immediate'']],
              [[Str ''Laboratory name and type'', Str ''Test''], [Str ''National lab'', Str ''PCR'']]] ''77''
   = Inr \<lparr>index_names = [Some ''Report ID'', Some ''Test #''],
          columns = [Str ''Laboratory name and type'', Str ''Test''],
          rows = [([Str ''77'', Num 1], [Str ''National lab'', Str ''PCR''])]\<rparr>"
  by code_simp

subsection \<open>The outbreak extractor: failures\<close>

lemma outbreaks_loop_fails:
  "i + 1 < length ts \<Longrightarrow> outbreak_pair (ts ! i) (ts ! (i + 1)) country = Inl e \<Longrightarrow>
   \<exists>e'. outbreaks_loop ts country = Inl e'"
proof (induction ts country arbitrary: i rule: outbreaks_loop.induct)
  case (1 a b ts country)
  show ?case
  proof (cases i)
    case 0
    with 1 show ?thesis by simp
  next
    case (Suc j)
    with "1.prems" have j: "j + 1 < length (b # ts)"
      and p: "outbreak_pair ((b # ts) ! j) ((b # ts) ! (j + 1)) country = Inl e"
      by simp_all
    show ?thesis
    proof (cases "outbreak_pair a b country")
      case (Inl e0)
      then show ?thesis by simp
    next
      case (Inr r)
      from "1.IH" [OF Inr j p] Inr show ?thesis by auto
    qed
  qed
qed simp_all

lemma get_outbreaks_fails:
  "outbreaks_loop tables country = Inl e \<Longrightarrow> get_outbreaks tables report_id country = Inl e"
  by (simp add: get_outbreaks_def)

lemma outbreak_pair_not_species:
  assumes "loc h 0 0 = Inr (Str s)" and "match_outbreak s = Some ds"
    and "loc sp 0 0 \<noteq> Inr (Str ''Species'')"
  shows "outbreak_pair h sp country = Inl AssertionError \<or> outbreak_pair h sp country = Inl KeyError"
  using assms by (auto simp: outbreak_pair_def loc_def split: sum.splits if_splits)

text \<open>
  Claim C5. When the table at position \<open>i\<close> has a text in cell (0,0) that matches
  \<open>Outbreak\<close>, a space and an integer at its start, and the table at position \<open>i + 1\<close>
  does not have \<open>Species\<close> in cell (0,0), the outbreak extractor raises an error for the
  report: the pair is not skipped.
\<close>

theorem outbreak_header_needs_species:
  assumes "i + 1 < length tables"
    and "loc (tables ! i) 0 0 = Inr (Str s)" and "match_outbreak s = Some ds"
    and "loc (tables ! (i + 1)) 0 0 \<noteq> Inr (Str ''Species'')"
  shows "\<exists>e. get_outbreaks tables report_id country = Inl e"
proof -
  from outbreak_pair_not_species [OF assms(2,3,4)]
  obtain e where "outbreak_pair (tables ! i) (tables ! (i + 1)) country = Inl e" by blast
  from outbreaks_loop_fails [OF assms(1) this] get_outbreaks_fails show ?thesis by blast
qed

theorem outbreak_header_needs_species_witness:
  "\<exists>e. get_outbreaks [header_hue, lab2] ''12345'' ''Viet Nam'' = Inl e"
proof -
  have 1: "0 + 1 < length [header_hue, lab2]" by simp
  have 2: "loc ([header_hue, lab2] ! 0) 0 0 = Inr (Str ''Outbreak 2'')"
    by (simp add: loc_def ncols_def cell_at_def header_hue_def)
  have 3: "match_outbreak ''Outbreak 2'' = Some ''2''" by code_simp
  have 4: "loc ([header_hue, lab2] ! (0 + 1)) 0 0 \<noteq> Inr (Str ''Species'')"
    by (simp add: loc_def ncols_def cell_at_def lab2_def)
  show ?thesis by (rule outbreak_header_needs_species [OF 1 2 3 4])
qed

lemma outbreak_rows_no_affected:
  assumes "Str ''Affected animals'' \<notin> set (map (\<lambda>r. cell_at h r 0) [1..<length h])"
  shows "outbreak_rows h sp n country = Inl KeyError"
proof (cases "ncols h < 2")
  case True
  then show ?thesis by (simp add: outbreak_rows_def header_series_def)
next
  case False
  let ?hs = "(Str ''Location'', cell_at h 0 1) # map (\<lambda>r. (cell_at h r 0, cell_at h r 1)) [1..<length h]"
  have "map fst (set_location country ?hs) = map fst ?hs"
    by (simp add: set_location_def comp_def split_beta)
  then have "Str ''Affected animals'' \<notin> set (map fst (set_location country ?hs))"
    using assms by (simp add: comp_def)
  then have "del_label (Str ''Affected animals'') (set_location country ?hs) = Inl KeyError"
    unfolding del_label_def by (simp only: if_False)
  with False show ?thesis by (simp add: outbreak_rows_def header_series_def)
qed

text \<open>
  Claim C3, as the code has it. \<^verbatim>\<open>del outbreak_table["Affected animals"]\<close> needs the
  label: when no row of an outbreak header table, below its first, is labelled
  \<open>Affected animals\<close>, the pair with a species table raises a KeyError, and the outbreak
  extractor raises an error for the report.
\<close>

theorem outbreak_header_needs_affected_animals:
  assumes "i + 1 < length tables"
    and "loc (tables ! i) 0 0 = Inr (Str s)" and "match_outbreak s = Some ds"
    and "Str ''Affected animals'' \<notin> set (map (\<lambda>r. cell_at (tables ! i) r 0) [1..<length (tables ! i)])"
  shows "(loc (tables ! (i + 1)) 0 0 = Inr (Str ''Species'') \<longrightarrow>
            outbreak_pair (tables ! i) (tables ! (i + 1)) country = Inl KeyError) \<and>
         (\<exists>e. get_outbreaks tables report_id country = Inl e)"
proof -
  have a: "outbreak_pair (tables ! i) (tables ! (i + 1)) country = Inl KeyError"
    if "loc (tables ! (i + 1)) 0 0 = Inr (Str ''Species'')"
    using that assms(2,3) outbreak_rows_no_affected [OF assms(4)]
    by (simp add: outbreak_pair_def)
  have "\<exists>e. outbreak_pair (tables ! i) (tables ! (i + 1)) country = Inl e"
  proof (cases "loc (tables ! (i + 1)) 0 0 = Inr (Str ''Species'')")
    case True
    with a show ?thesis by blast
  next
    case False
    from outbreak_pair_not_species [OF assms(2,3) False] show ?thesis by blast
  qed
  then obtain e where "outbreak_pair (tables ! i) (tables ! (i + 1)) country = Inl e" by blast
  from outbreaks_loop_fails [OF assms(1) this] get_outbreaks_fails a show ?thesis by blast
qed

theorem outbreak_header_needs_affected_animals_witness:
  "outbreak_pair header_hue species_swine ''Viet Nam'' = Inl KeyError \<and>
   (\<exists>e. get_outbreaks [header_hue, species_swine] ''12345'' ''Viet Nam'' = Inl e)"
proof -
  let ?ts = "[header_hue, species_swine]"
  have 1: "0 + 1 < length ?ts" by simp
  have 2: "loc (?ts ! 0) 0 0 = Inr (Str ''Outbreak 2'')"
    by (simp add: loc_def ncols_def cell_at_def header_hue_def)
  have 3: "match_outbreak ''Outbreak 2'' = Some ''2''" by code_simp
  have 4: "Str ''Affected animals'' \<notin> set (map (\<lambda>r. cell_at (?ts ! 0) r 0) [1..<length (?ts ! 0)])"
    by (simp add: cell_at_def header_hue_def upt_rec)
  have 5: "loc (?ts ! (0 + 1)) 0 0 = Inr (Str ''Species'')"
    by (simp add: loc_def ncols_def cell_at_def species_swine_def)
  from outbreak_header_needs_affected_animals [OF 1 2 3 4, of "''Viet Nam''" "''12345''"] 5
  show ?thesis by simp
qed

text \<open>
  The claim as worded, that extraction succeeds without the field, fails: this header
  has no \<open>Affected animals\<close> row and a species table follows it.
\<close>

theorem missing_affected_animals_counterexample:
  "get_outbreaks [header_hue, species_swine] ''12345'' ''Viet Nam'' = Inl KeyError"
  by code_simp

text \<open>
  Claim C9. The loop pairs each table with its successor, so the last table is read
  only as the second table of the last pair, where it stands as the species table of
  its predecessor: a list of one table gives no rows and no error whatever its cell
  (0,0) is, and the result for a longer list is the result for the list without its
  last table, followed by the pair of the last two tables.
\<close>

theorem last_table_only_species_side:
  "outbreaks_loop [t] country = Inr [] \<and>
   get_outbreaks [t] report_id country = Inr empty_frame \<and>
   outbreaks_loop (ts @ [a, t]) country =
     (case outbreaks_loop (ts @ [a]) country of
        Inl e \<Rightarrow> Inl e
      | Inr fs \<Rightarrow>
         (case outbreak_pair a t country of
            Inl e \<Rightarrow> Inl e
          | Inr r \<Rightarrow> Inr (fs @ (case r of None \<Rightarrow> [] | Some f \<Rightarrow> [f]))))"
proof -
  have "outbreaks_loop (ts @ [a, t]) country =
     (case outbreaks_loop (ts @ [a]) country of
        Inl e \<Rightarrow> Inl e
      | Inr fs \<Rightarrow>
         (case outbreak_pair a t country of
            Inl e \<Rightarrow> Inl e
          | Inr r \<Rightarrow> Inr (fs @ (case r of None \<Rightarrow> [] | Some f \<Rightarrow> [f]))))"
  proof (induction ts)
    case Nil
    show ?case by (simp split: sum.splits option.splits)
  next
    case (Cons x ts)
    show ?case
    proof (cases ts)
      case Nil
      then show ?thesis by (simp split: sum.splits option.splits)
    next
      case (Cons y zs)
      with Cons.IH show ?thesis by (simp split: sum.splits option.splits)
    qed
  qed
  then show ?thesis by (simp add: get_outbreaks_def)
qed

theorem last_table_only_species_side_witness:
  "outbreaks_loop [header_hue] ''Viet Nam'' = Inr [] \<and>
   get_outbreaks [header_hue] ''12345'' ''Viet Nam'' = Inr empty_frame \<and>
   outbreaks_loop [report_type_table, summary_table, header_hue] ''Viet Nam'' = Inr []"
proof -
  have 1: "outbreaks_loop ([report_type_table] @ [summary_table]) ''Viet Nam'' = Inr []"
    by code_simp
  have 2: "outbreak_pair summary_table header_hue ''Viet Nam'' = Inr None"
    by code_simp
  from last_table_only_species_side
         [of header_hue "''Viet Nam''" "''12345''" "[report_type_table]" summary_table] 1 2
  show ?thesis by simp
qed

subsection \<open>The report identifier\<close>

lemma digit_runs_open:
  "run \<noteq> [] \<Longrightarrow> \<exists>rs. digit_runs run s = (rev run @ takeWhile is_digit s) # rs"
proof (induction s arbitrary: run)
  case Nil
  then show ?case by simp
next
  case (Cons c cs)
  show ?case
  proof (cases "is_digit c")
    case True
    from Cons.IH [of "c # run"] obtain rs where
      "digit_runs (c # run) cs = (rev (c # run) @ takeWhile is_digit cs) # rs" by auto
    with True show ?thesis by simp
  next
    case False
    with Cons.prems show ?thesis by simp
  qed
qed

lemma digit_runs_nonempty: "[] \<notin> set (digit_runs run s)"
  by (induction s arbitrary: run) auto

lemma digit_runs_first:
  "digit_runs [] s = r # rs \<Longrightarrow> r = first_digit_run s"
proof (induction s)
  case Nil
  then show ?case by simp
next
  case (Cons c cs)
  show ?case
  proof (cases "is_digit c")
    case True
    from digit_runs_open [of "[c]" cs] obtain rs' where
      "digit_runs [c] cs = (c # takeWhile is_digit cs) # rs'" by auto
    with Cons.prems True show ?thesis by (simp add: first_digit_run_def)
  next
    case False
    with Cons show ?thesis by (simp add: first_digit_run_def)
  qed
qed

lemma first_digit_run_position:
  "\<exists>pre post. p = pre @ first_digit_run p @ post \<and> (\<forall>c \<in> set pre. \<not> is_digit c) \<and>
      (\<forall>c \<in> set (first_digit_run p). is_digit c) \<and> (\<forall>c cs. post = c # cs \<longrightarrow> \<not> is_digit c)"
proof -
  let ?pre = "takeWhile (\<lambda>c. \<not> is_digit c) p"
  let ?rest = "dropWhile (\<lambda>c. \<not> is_digit c) p"
  let ?post = "dropWhile is_digit ?rest"
  have "p = ?pre @ first_digit_run p @ ?post"
    by (simp add: first_digit_run_def)
  moreover have "\<forall>c \<in> set ?pre. \<not> is_digit c"
    by (auto dest: set_takeWhileD)
  moreover have "\<forall>c \<in> set (first_digit_run p). is_digit c"
    by (auto simp: first_digit_run_def dest: set_takeWhileD)
  moreover have "\<forall>c cs. ?post = c # cs \<longrightarrow> \<not> is_digit c"
    by (metis hd_dropWhile list.sel(1) list.distinct(1))
  ultimately show ?thesis by blast
qed

lemma insert_column_keys:
  "insert_column pos name v f = Inr g \<Longrightarrow> map fst (rows g) = map fst (rows f)"
  by (auto simp: insert_column_def split: if_splits)

lemma insert_field_keys:
  assumes "insert_field pos name fld df = Inr g" and "rows df \<noteq> []"
    and "\<forall>k \<in> set (map fst (rows df)). length k = 2"
  shows "map fst (rows g) = map fst (rows df)"
proof (cases fld)
  case (Scalar v)
  with assms(1) show ?thesis by (simp add: insert_field_def insert_column_keys)
next
  case (Several vs)
  from assms(2) obtain k ws rest where r: "rows df = (k, ws) # rest" by (cases "rows df") auto
  with assms(3) have "length k = 2" by simp
  then have "map fst (rows df) \<noteq> map (\<lambda>v. [Str name]) vs"
    using r by (cases vs) auto
  with assms(1,2) Several show ?thesis
    by (simp add: insert_field_def split: if_splits)
qed

lemma add_report_fields_keys:
  assumes "add_report_fields disease country date df = Inr g" and "rows df \<noteq> []"
    and "\<forall>k \<in> set (map fst (rows df)). length k = 2"
  shows "map fst (rows g) = map fst (rows df)"
proof -
  from assms(1) obtain dis cou dat df1 df2 where
    1: "insert_field 0 ''Disease'' dis df = Inr df1"
    and 2: "insert_field 1 ''Country'' cou df1 = Inr df2"
    and 3: "insert_field 2 ''Report date'' dat df2 = Inr g"
    by (auto simp: add_report_fields_def split: option.splits sum.splits)
  from insert_field_keys [OF 1 assms(2,3)] have k1: "map fst (rows df1) = map fst (rows df)" .
  with assms(2,3) have n1: "rows df1 \<noteq> []" and l1: "\<forall>k \<in> set (map fst (rows df1)). length k = 2"
    by (auto simp: map_eq_Cons_conv dest: arg_cong [where f = length])
  from insert_field_keys [OF 2 n1 l1] k1 have k2: "map fst (rows df2) = map fst (rows df)" by simp
  with assms(2,3) have n2: "rows df2 \<noteq> []" and l2: "\<forall>k \<in> set (map fst (rows df2)). length k = 2"
    by (auto simp: map_eq_Cons_conv dest: arg_cong [where f = length])
  from insert_field_keys [OF 3 n2 l2] k2 show ?thesis by simp
qed

lemma set_column_shape:
  "length (rows (set_column k v f)) = length (rows f)"
  by (simp add: set_column_def)

lemma fold_set_column_shape:
  "length (rows (fold (\<lambda>(k, v). set_column k v) kvs f)) = length (rows f)"
  by (induction kvs arbitrary: f) (auto simp: set_column_shape)

lemma outbreak_rows_count:
  assumes "outbreak_rows h sp n country = Inr f"
  shows "length (rows f) = length sp - 1"
proof -
  from assms obtain hs q where q: "insert_column 0 (Str ''Outbreak #'') (Num (int n)) (promote_header sp) = Inr q"
    and f: "assign_series hs q = Inr f"
    by (auto simp: outbreak_rows_def split: sum.splits)
  from q have "length (rows q) = length (rows (promote_header sp))"
    by (auto simp: insert_column_def split: if_splits)
  moreover from f have "length (rows f) = length (rows q)"
    by (auto simp: assign_series_def fold_set_column_shape split: if_splits)
  ultimately show ?thesis by (simp add: promote_header_def)
qed

lemma outbreak_pair_count:
  assumes "outbreak_pair a b country = Inr r"
  shows "(case r of None \<Rightarrow> [] | Some f \<Rightarrow> [length (rows f)])
           = (if is_outbreak_header a then [length b - 1] else [])"
  using assms
  by (auto simp: outbreak_pair_def is_outbreak_header_def outbreak_rows_count
           split: sum.splits cell.splits option.splits if_splits)

lemma outbreaks_loop_counts:
  "outbreaks_loop tables country = Inr fs \<Longrightarrow>
   map (\<lambda>f. length (rows f)) fs = map (\<lambda>(h, sp). length sp - 1) (outbreak_pairs tables)"
proof (induction tables country arbitrary: fs rule: outbreaks_loop.induct)
  case (1 a b ts country)
  from "1.prems" obtain r gs where r: "outbreak_pair a b country = Inr r"
    and gs: "outbreaks_loop (b # ts) country = Inr gs"
    and fs: "fs = (case r of None \<Rightarrow> gs | Some f \<Rightarrow> f # gs)"
    by (auto split: sum.splits)
  from "1.IH" [OF r gs] outbreak_pair_count [OF r] fs show ?case
    by (auto simp: outbreak_pairs_def split: option.splits if_splits)
qed (simp_all add: outbreak_pairs_def)

lemma sum_kept_frames:
  "sum_list (map (\<lambda>f. length (rows f)) (kept_frames fs)) = sum_list (map (\<lambda>f. length (rows f)) fs)"
proof -
  have "sum_list (map (\<lambda>f. length (rows f)) (filter (\<lambda>f. rows f \<noteq> [] \<or> columns f \<noteq> []) fs))
          = sum_list (map (\<lambda>f. length (rows f)) fs)"
    by (induction fs) auto
  then show ?thesis by (simp add: kept_frames_def Let_def)
qed

lemma concat_frames_count:
  assumes "concat_frames fs = Inr g"
  shows "length (rows g) = sum_list (map (\<lambda>f. length (rows f)) fs)"
proof -
  from assms have "length (rows g) = sum_list (map (\<lambda>f. length (rows f)) (kept_frames fs))"
    by (auto simp: concat_frames_def Let_def length_concat comp_def split_beta
             split: list.splits if_splits)
  then show ?thesis by (simp add: sum_kept_frames)
qed

lemma get_outbreaks_report_id:
  assumes "get_outbreaks tables report_id country = Inr f"
  shows "length (rows f) = outbreak_row_count tables \<and>
         (\<forall>k \<in> set (map fst (rows f)). \<exists>n. k = [Str report_id, n])"
proof (cases "outbreaks_loop tables country")
  case (Inl e)
  with assms show ?thesis by (simp add: get_outbreaks_def)
next
  case (Inr fs)
  from outbreaks_loop_counts [OF Inr]
  have cnt: "sum_list (map (\<lambda>f. length (rows f)) fs) = outbreak_row_count tables"
    by (simp add: outbreak_row_count_def)
  show ?thesis
  proof (cases fs)
    case Nil
    with assms Inr cnt show ?thesis by (auto simp: get_outbreaks_def empty_frame_def)
  next
    case (Cons g gs)
    with assms Inr obtain c c' where
      c: "concat_frames fs = Inr c"
      and c': "insert_column 0 (Str ''Report ID'') (Str report_id) c = Inr c'"
      and f: "set_index ''Report ID'' ''Outbreak #'' c' = Inr f"
      by (auto simp: get_outbreaks_def split: sum.splits)
    from insert_column_front(1) [OF c']
    have cols: "columns c' = Str ''Report ID'' # columns c"
      and rws: "rows c' = map (\<lambda>(k, vs). (k, Str report_id # vs)) (rows c)" by simp_all
    have key: "column_value c' (Str ''Report ID'') (x # vs) = x" for x vs
      by (simp add: column_value_def cols)
    have "length (rows f) = length (rows c)"
      unfolding set_index_result(2) [OF f] rws by simp
    with concat_frames_count [OF c] cnt have "length (rows f) = outbreak_row_count tables"
      by simp
    moreover have "\<forall>k \<in> set (map fst (rows f)). \<exists>n. k = [Str report_id, n]"
      unfolding set_index_result(2) [OF f] rws
      by (auto simp: key)
    ultimately show ?thesis by simp
  qed
qed

lemma tests_loop_result:
  "tests_loop acc tables = Inr r \<Longrightarrow>
   r = (case filter is_lab_table tables of
          [] \<Rightarrow> acc
        | l # ls \<Rightarrow> Some (promote_header (last (l # ls))))"
proof (induction tables arbitrary: acc)
  case Nil
  then show ?case by simp
next
  case (Cons t ts)
  show ?case
  proof (cases "is_lab_table t")
    case True
    with Cons.prems have "tests_loop (Some (promote_header t)) ts = Inr r"
      by (simp add: is_lab_table_def)
    from Cons.IH [OF this] True show ?thesis
      by (simp split: list.splits)
  next
    case False
    with Cons.prems have "tests_loop acc ts = Inr r"
      by (auto simp: is_lab_table_def split: sum.splits if_splits)
    from Cons.IH [OF this] False show ?thesis by simp
  qed
qed

lemma get_tests_report_id:
  assumes "get_tests tables report_id = Inr f"
  shows "length (rows f) = test_row_count tables \<and>
         (\<forall>k \<in> set (map fst (rows f)). \<exists>n. k = [Str report_id, n])"
proof (cases "tests_loop None tables")
  case (Inl e)
  with assms show ?thesis by (simp add: get_tests_def)
next
  case (Inr r)
  note res = tests_loop_result [OF Inr]
  show ?thesis
  proof (cases r)
    case None
    with res have "test_row_count tables = 0"
      by (simp add: test_row_count_def split: list.splits)
    with None assms Inr show ?thesis by (auto simp: get_tests_def empty_frame_def)
  next
    case (Some tt)
    with res have cnt: "test_row_count tables = length (rows tt)"
      by (auto simp: test_row_count_def promote_header_def split: list.splits)
    from Some assms Inr obtain t1 t2 where
      t1: "insert_column 0 (Str ''Report ID'') (Str report_id) tt = Inr t1"
      and t2: "reset_index t1 = Inr t2"
      and f: "set_index ''Report ID'' ''Test #'' (rename_column (Str ''index'') (Str ''Test #'') t2) = Inr f"
      by (auto simp: get_tests_def split: sum.splits)
    let ?t3 = "rename_column (Str ''index'') (Str ''Test #'') t2"
    from insert_column_front(1) [OF t1]
    have c1: "columns t1 = Str ''Report ID'' # columns tt"
      and r1: "rows t1 = map (\<lambda>(k, vs). (k, Str report_id # vs)) (rows tt)"
      by simp_all
    from t2 c1 obtain x where c2: "columns t2 = x # Str ''Report ID'' # columns tt"
      and x: "x = Str ''index'' \<or> x = Str ''level_0''"
      and r2: "rows t2 = map (\<lambda>(i, (k, vs)). ([Num (int i)], (case k of [x] \<Rightarrow> x | _ \<Rightarrow> NaN) # vs))
                    (enumerate 0 (rows t1))"
      by (auto simp: reset_index_def Let_def split: if_splits)
    from c2 x obtain y cs where c3: "columns ?t3 = y # Str ''Report ID'' # cs"
      and y: "y \<noteq> Str ''Report ID''"
      by (auto simp: rename_column_def)
    have r3: "rows ?t3 = rows t2" by (simp add: rename_column_def)
    have key: "column_value ?t3 (Str ''Report ID'') (a # b # vs) = b" for a b vs
      using y by (simp add: column_value_def c3)
    have "length (rows f) = length (rows tt)"
      unfolding set_index_result(2) [OF f] r3 r2 r1 by simp
    moreover have "\<forall>k \<in> set (map fst (rows f)). \<exists>n. k = [Str report_id, n]"
      unfolding set_index_result(2) [OF f] r3 r2 r1
      by (auto simp: key enumerate_map)
    ultimately show ?thesis using cnt by simp
  qed
qed

lemma extract_report_parts:
  assumes "extract_report tables p = Inr (details, outbreaks, tests)"
  shows "\<exists>country o1 t1.
           findall_digits p \<noteq> [] \<and>
           get_details tables (first_digit_run p) = Inr details \<and>
           get_outbreaks tables (first_digit_run p) country = Inr o1 \<and>
           get_tests tables (first_digit_run p) = Inr t1 \<and>
           add_report_fields (get_field details (Str ''Disease'')) (get_field details (Str ''Country''))
              (get_field details (Str ''Report date'')) o1 = Inr outbreaks \<and>
           add_report_fields (get_field details (Str ''Disease'')) (get_field details (Str ''Country''))
              (get_field details (Str ''Report date'')) t1 = Inr tests"
proof -
  from assms obtain rid rest where runs: "findall_digits p = rid # rest"
    by (auto simp: extract_report_def split: list.splits)
  then have rid: "rid = first_digit_run p"
    by (simp add: findall_digits_def digit_runs_first)
  from assms runs rid show ?thesis
    by (auto simp: extract_report_def tabulate_report_def split: sum.splits option.splits)
qed

lemma extract_report_ids:
  assumes ex: "extract_report tables p = Inr (details, outbreaks, tests)"
  shows "first_digit_run p \<noteq> [] \<and>
         sname details = Some (first_digit_run p) \<and>
         (Str ''Url'', Str (REPORT_URL (first_digit_run p))) \<in> set (items details) \<and>
         (0 < outbreak_row_count tables \<longrightarrow>
            length (rows outbreaks) = outbreak_row_count tables \<and>
            (\<forall>k \<in> set (map fst (rows outbreaks)). \<exists>n. k = [Str (first_digit_run p), n])) \<and>
         (0 < test_row_count tables \<longrightarrow>
            length (rows tests) = test_row_count tables \<and>
            (\<forall>k \<in> set (map fst (rows tests)). \<exists>n. k = [Str (first_digit_run p), n]))"
proof -
  let ?rid = "first_digit_run p"
  from extract_report_parts [OF ex] obtain country o1 t1 where
    runs: "findall_digits p \<noteq> []"
    and det: "get_details tables ?rid = Inr details"
    and ob: "get_outbreaks tables ?rid country = Inr o1"
    and ts: "get_tests tables ?rid = Inr t1"
    and ob': "add_report_fields (get_field details (Str ''Disease'')) (get_field details (Str ''Country''))
              (get_field details (Str ''Report date'')) o1 = Inr outbreaks"
    and ts': "add_report_fields (get_field details (Str ''Disease'')) (get_field details (Str ''Country''))
              (get_field details (Str ''Report date'')) t1 = Inr tests"
    by blast
  from runs obtain r rs where "digit_runs [] p = r # rs"
    by (cases "findall_digits p") (auto simp: findall_digits_def)
  with digit_runs_first [of p r rs] digit_runs_nonempty [of "[]" p] have ne: "?rid \<noteq> []"
    by auto
  from get_details_items [OF det] have nm: "sname details = Some ?rid"
    and url: "(Str ''Url'', Str (REPORT_URL ?rid)) \<in> set (items details)" by auto
  have frame: "length (rows g) = n \<and> (\<forall>k \<in> set (map fst (rows g)). \<exists>m. k = [Str ?rid, m])"
    if g0: "length (rows g0) = n \<and> (\<forall>k \<in> set (map fst (rows g0)). \<exists>m. k = [Str ?rid, m])"
      and add: "add_report_fields (get_field details (Str ''Disease'')) (get_field details (Str ''Country''))
              (get_field details (Str ''Report date'')) g0 = Inr g"
      and pos: "0 < n" for g0 g n
  proof -
    from g0 pos have ne0: "rows g0 \<noteq> []" by auto
    from g0 have "\<forall>k \<in> set (map fst (rows g0)). length k = 2" by auto
    from add_report_fields_keys [OF add ne0 this] have "map fst (rows g) = map fst (rows g0)" .
    with g0 show ?thesis by (metis length_map)
  qed
  from frame [OF get_outbreaks_report_id [OF ob] ob'] frame [OF get_tests_report_id [OF ts] ts']
    ne nm url show ?thesis by blast
qed



subsection \<open>The batch\<close>

lemma run_reports_append:
  "run_reports (pre @ post) =
     (case run_reports pre of
        (l, Inl e) \<Rightarrow> (l, Inl e)
      | (l, Inr ts) \<Rightarrow>
          (case run_reports post of
             (l', Inl e) \<Rightarrow> (l @ l', Inl e)
           | (l', Inr ts') \<Rightarrow> (l @ l', Inr (ts @ ts'))))"
  by (induction pre) (auto split: prod.splits sum.splits)

lemma run_reports_all_ok:
  "\<forall>p \<in> set pre. \<exists>t. snd (process_report p) = Inr t \<Longrightarrow>
   \<exists>ts. run_reports pre = (concat (map (\<lambda>p. fst (process_report p)) pre), Inr ts)"
proof (induction pre)
  case Nil
  then show ?case by simp
next
  case (Cons p pre)
  then obtain t ts where "snd (process_report p) = Inr t"
    and "run_reports pre = (concat (map (\<lambda>p. fst (process_report p)) pre), Inr ts)"
    by auto
  then show ?case by (cases "process_report p") auto
qed

text \<open>
  Claim C1, as the code has it. \<^verbatim>\<open>process_reports\<close> has no handler around
  \<^verbatim>\<open>process_report\<close>: when the reports before \<open>d\<close> return and \<open>d\<close> raises the
  exception \<open>e\<close>, the batch raises \<open>e\<close>, returns no table at all, and the reports after
  \<open>d\<close> are not even read (the log stops at \<open>d\<close>).
\<close>

theorem first_failure_aborts_batch:
  assumes "\<forall>p \<in> set pre. \<exists>t. snd (process_report p) = Inr t"
    and "snd (process_report d) = Inl e"
  shows "process_reports (pre @ d # post)
           = (concat (map (\<lambda>p. fst (process_report p)) (pre @ [d])), Inl e)"
proof -
  from run_reports_all_ok [OF assms(1)] obtain ts where
    pre: "run_reports pre = (concat (map (\<lambda>p. fst (process_report p)) pre), Inr ts)" by blast
  from assms(2) have "run_reports (d # post) = (fst (process_report d), Inl e)"
    by (cases "process_report d") auto
  with pre have "run_reports (pre @ d # post)
      = (concat (map (\<lambda>p. fst (process_report p)) (pre @ [d])), Inl e)"
    by (simp add: run_reports_append)
  then show ?thesis by (simp add: process_reports_def)
qed

theorem first_failure_aborts_batch_witness:
  "process_reports [good_document, mismatch_document, good_document]
     = ([(Debug, ''Reading out2020/123.html''), (Debug, ''Reading out/124.html'')],
        Inl AssertionError)"
proof -
  have 1: "\<forall>p \<in> set [good_document]. \<exists>t. snd (process_report p) = Inr t"
  proof -
    have "case snd (process_report good_document) of Inl e \<Rightarrow> False | Inr x \<Rightarrow> True"
      by code_simp
    then show ?thesis by (auto split: sum.splits)
  qed
  have 2: "snd (process_report mismatch_document) = Inl AssertionError"
    by code_simp
  have 3: "concat (map (\<lambda>p. fst (process_report p)) ([good_document] @ [mismatch_document]))
            = [(Debug, ''Reading out2020/123.html''), (Debug, ''Reading out/124.html'')]"
    by code_simp
  from first_failure_aborts_batch [OF 1 2, of "[good_document]"] show ?thesis
    unfolding 3 by simp
qed

text \<open>
  The claim as worded, that the other reports of the batch still get their results,
  fails: the first report alone is tabulated, and together with a report whose
  \<open>Outbreak 2\<close> header is followed by the laboratory table the batch returns nothing but
  the AssertionError.
\<close>

theorem batch_isolation_counterexample:
  "snd (process_reports [good_document, mismatch_document]) = Inl AssertionError \<and>
   (case snd (process_reports [good_document]) of Inl e \<Rightarrow> False | Inr x \<Rightarrow> True)"
  by code_simp

text \<open>
  A report that returns does not end the batch, also when its frames are odd: with
  \<open>Report date\<close> in two metadata tables and no outbreak the report is tabulated (its
  empty frames take over the repeated label as row keys), and the batch reads on to
  the next report.
\<close>

lemma repeated_date_report_returns:
  "snd (process_report repeated_date_document) =
     Inr (\<lparr>sname = Some ''129'',
            items = [(Str ''Disease'', Str ''African swine fever''),
                     (Str ''Country'', Str '' Viet Nam''),
                     (Str ''Url'', Str (REPORT_URL ''129'')),
                     (Str ''Report type'', Str ''Immediate notification''),
                     (Str ''Report date'', Str ''2020-01-01''),
                     (Str ''Measures applied'', Str ''Quarantine''),
                     (Str ''Report date'', Str ''2020-02-02'')]\<rparr>,
          \<lparr>index_names = [None],
            columns = [Str ''Disease'', Str ''Country'', Str ''Report date''],
            rows = [([Str ''Report date''], [NaN, NaN, Str ''2020-01-01'']),
                    ([Str ''Report date''], [NaN, NaN, Str ''2020-02-02''])]\<rparr>,
          \<lparr>index_names = [None],
            columns = [Str ''Disease'', Str ''Country'', Str ''Report date''],
            rows = [([Str ''Report date''], [NaN, NaN, Str ''2020-01-01'']),
                    ([Str ''Report date''], [NaN, NaN, Str ''2020-02-02''])]\<rparr>)"
  by code_simp

lemma batch_reads_on_after_repeated_date:
  "process_reports [repeated_date_document, mismatch_document]
     = ([(Debug, ''Reading out/129.html''), (Debug, ''Reading out/124.html'')],
        Inl AssertionError)"
  by code_simp

subsection \<open>Placeholder pages\<close>

lemma process_report_placeholder:
  assumes "is_placeholder d"
  shows "process_report d =
           ([(Debug, ''Reading '' @ path d),
             (Warning, ''Report in '' @ path d @ '' was affected by an Application Error'')],
            Inr (empty_series, empty_frame, empty_frame))"
  using assms by (simp add: is_placeholder_def process_report_def)

lemma is_real_recordD:
  assumes "is_real_record s"
  shows "\<exists>x rest. items s = (Str ''Disease'', Str x) # rest"
proof (cases "items s")
  case Nil
  with assms show ?thesis by (simp add: is_real_record_def)
next
  case (Cons kv rest)
  obtain k v where kv: "kv = (k, v)" by (cases kv)
  with assms Cons have "k = Str ''Disease''" and "is_text v"
    by (simp_all add: is_real_record_def)
  then show ?thesis using Cons kv by (cases v) (simp_all add: is_text_def)
qed

lemma process_report_real:
  assumes "\<not> is_placeholder d" and "snd (process_report d) = Inr (s, ob, ts)"
  shows "is_real_record s \<and> record_key s = [Str (first_digit_run (path d))]"
proof -
  from assms obtain tables where p: "parsed d = Inr tables"
    by (cases "parsed d") (auto simp: process_report_def is_placeholder_def split: if_splits)
  with assms(2) have ex: "extract_report tables (path d) = Inr (s, ob, ts)"
    by (simp add: process_report_def)
  from extract_report_parts [OF ex] obtain rid where det: "get_details tables rid = Inr s"
    by blast
  from get_details_items [OF det] have "is_real_record s"
    by (auto simp: is_real_record_def is_text_def)
  moreover from extract_report_ids [OF ex]
  have "record_key s = [Str (first_digit_run (path d))]"
    by (simp add: record_key_def)
  ultimately show ?thesis by simp
qed

lemma run_reports_results:
  "run_reports docs = (l, Inr ts) \<Longrightarrow>
   list_all2 (\<lambda>d t. snd (process_report d) = Inr t) docs ts \<and>
   l = concat (map (\<lambda>d. fst (process_report d)) docs)"
proof (induction docs arbitrary: l ts)
  case Nil
  then show ?case by simp
next
  case (Cons d docs)
  then show ?case
    by (cases "process_report d"; cases "run_reports docs") (auto split: sum.splits)
qed

lemma row_labels_real:
  "length (row_labels n ss) = length ss"
  by (induction ss arbitrary: n) (auto split: option.splits)

lemma kept_rows:
  assumes "\<forall>s \<in> set ss. s = empty_series \<or> is_real_record s"
    and "\<forall>s \<in> set ss. (\<exists>v \<in> set (rowf s). v \<noteq> NaN) = is_real_record s"
  shows "map fst (filter (\<lambda>(k, vs). \<exists>v \<in> set vs. v \<noteq> NaN)
                  (map (\<lambda>(l, r). ([l], rowf r)) (zip (row_labels n ss) ss)))
         = map record_key (filter is_real_record ss)"
  using assms
proof (induction ss arbitrary: n)
  case Nil
  then show ?case by simp
next
  case (Cons s ss)
  then have IH: "map fst (filter (\<lambda>(k, vs). \<exists>v \<in> set vs. v \<noteq> NaN)
                  (map (\<lambda>(l, r). ([l], rowf r)) (zip (row_labels m ss) ss)))
         = map record_key (filter is_real_record ss)" for m
    by simp
  from Cons.prems have s: "(\<exists>v \<in> set (rowf s). v \<noteq> NaN) = is_real_record s" by simp
  show ?case
  proof (cases "sname s")
    case None
    then have "\<not> is_real_record s" by (simp add: is_real_record_def)
    with None s IH show ?thesis by simp
  next
    case (Some name)
    with Cons.prems have "is_real_record s" by (auto simp: empty_series_def)
    with Some s IH show ?thesis by (simp add: record_key_def)
  qed
qed

lemma set_union_labels_acc:
  "set (fold (\<lambda>cs acc. acc @ filter (\<lambda>c. c \<notin> set acc) cs) css acc) = set acc \<union> \<Union> (set ` set css)"
  by (induction css arbitrary: acc) auto

lemma set_union_labels: "set (union_labels css) = \<Union> (set ` set css)"
  by (simp add: union_labels_def set_union_labels_acc)

lemma real_record_values:
  "is_real_record s \<Longrightarrow> \<exists>v \<in> set (map snd (items s)). v \<noteq> NaN"
  by (auto dest!: is_real_recordD)

lemma real_record_reindexed:
  assumes "is_real_record s" and "set (map fst (items s)) \<subseteq> set cols"
  shows "\<exists>v \<in> set (reindex_row cols (map fst (items s)) (map snd (items s))). v \<noteq> NaN"
proof -
  from is_real_recordD [OF assms(1)] obtain x rest
    where it: "items s = (Str ''Disease'', Str x) # rest" by blast
  with assms(2) have "Str ''Disease'' \<in> set cols" by simp
  moreover have "(case map_of (zip (map fst (items s)) (map snd (items s))) (Str ''Disease'') of
                    None \<Rightarrow> NaN | Some v \<Rightarrow> v) = Str x"
    by (simp add: it)
  ultimately show ?thesis
    unfolding reindex_row_def by (auto intro!: bexI [of _ "Str ''Disease''"])
qed

lemma empty_record_reindexed:
  "\<not> (\<exists>v \<in> set (reindex_row cols (map fst (items empty_series)) (map snd (items empty_series))). v \<noteq> NaN)"
  by (auto simp: reindex_row_def empty_series_def)

lemma concat_records_kept:
  assumes "concat_records ss = Inr f"
    and "\<forall>s \<in> set ss. s = empty_series \<or> is_real_record s"
  shows "map fst (rows (dropna_all f)) = map record_key (filter is_real_record ss)"
proof -
  from assms(1) obtain s rest where ss: "ss = s # rest"
    by (cases ss) (auto simp: concat_records_def)
  have not_real_empty: "\<not> is_real_record empty_series"
    by (simp add: is_real_record_def empty_series_def)
  show ?thesis
  proof (cases "\<forall>r \<in> set rest. map fst (items r) = map fst (items s)")
    case True
    with assms(1) ss have rows: "rows f = map (\<lambda>(l, r). ([l], map snd (items r))) (zip (row_labels 0 ss) ss)"
      by (auto simp: concat_records_def)
    have "\<forall>s \<in> set ss. (\<exists>v \<in> set (map snd (items s)). v \<noteq> NaN) = is_real_record s"
      using assms(2) real_record_values not_real_empty
      by (auto simp: empty_series_def)
    from kept_rows [OF assms(2) this, of 0] rows show ?thesis
      by (simp add: dropna_all_def)
  next
    case False
    let ?cols = "union_labels (map (\<lambda>r. map fst (items r)) ss)"
    from False assms(1) ss have rows: "rows f = map (\<lambda>(l, r). ([l], reindex_row ?cols (map fst (items r)) (map snd (items r)))) (zip (row_labels 0 ss) ss)"
      by (auto simp: concat_records_def Let_def split: if_splits)
    have "\<forall>s \<in> set ss. (\<exists>v \<in> set (reindex_row ?cols (map fst (items s)) (map snd (items s))). v \<noteq> NaN) = is_real_record s"
    proof
      fix r assume r: "r \<in> set ss"
      then have sub: "set (map fst (items r)) \<subseteq> set ?cols"
        unfolding set_union_labels by auto
      from assms(2) r consider "r = empty_series" | "is_real_record r" by blast
      then show "(\<exists>v \<in> set (reindex_row ?cols (map fst (items r)) (map snd (items r))). v \<noteq> NaN) = is_real_record r"
      proof cases
        case 1
        with empty_record_reindexed [of ?cols] not_real_empty show ?thesis by simp
      next
        case 2
        with real_record_reindexed [OF 2 sub] show ?thesis by simp
      qed
    qed
    from kept_rows [OF assms(2) this, of 0] rows show ?thesis
      by (simp add: dropna_all_def)
  qed
qed

lemma batch_records:
  assumes "list_all2 (\<lambda>d t. snd (process_report d) = Inr t) docs ts"
  shows "(\<forall>s \<in> set (map fst ts). s = empty_series \<or> is_real_record s) \<and>
         map record_key (filter is_real_record (map fst ts))
           = map (\<lambda>d. [Str (first_digit_run (path d))]) (filter (\<lambda>d. \<not> is_placeholder d) docs)"
  using assms
proof (induction rule: list_all2_induct)
  case Nil
  then show ?case by simp
next
  case (Cons d docs t ts)
  obtain s ob te where t: "t = (s, ob, te)" by (cases t)
  show ?case
  proof (cases "is_placeholder d")
    case True
    from process_report_placeholder [OF True] Cons.hyps(1) t have "s = empty_series" by simp
    moreover have "\<not> is_real_record empty_series"
      by (simp add: is_real_record_def empty_series_def)
    ultimately show ?thesis using Cons.IH True t by simp
  next
    case False
    from process_report_real [OF False] Cons.hyps(1) t
    have "is_real_record s" and "record_key s = [Str (first_digit_run (path d))]" by simp_all
    then show ?thesis using Cons.IH False t by simp
  qed
qed

text \<open>
  Claim C6. For a page that has no table (the parser raises ValueError) and whose text
  contains \<open>Application Error\<close>, \<^verbatim>\<open>process_report\<close> does not raise: it logs a
  warning and returns the empty record with two empty frames. And whenever a batch
  returns its tables, the rows of the reports table are, in order, those of the
  documents that are not such placeholders, each under its report identifier: the
  placeholder has no row.
\<close>

theorem placeholder_report_is_dropped:
  assumes "is_placeholder d"
  shows "process_report d =
           ([(Debug, ''Reading '' @ path d),
             (Warning, ''Report in '' @ path d @ '' was affected by an Application Error'')],
            Inr (empty_series, empty_frame, empty_frame)) \<and>
         (\<forall>docs l reports outbreaks tests.
            process_reports docs = (l, Inr (reports, outbreaks, tests)) \<longrightarrow>
            map fst (rows reports) =
              map (\<lambda>d. [Str (first_digit_run (path d))]) (filter (\<lambda>d. \<not> is_placeholder d) docs))"
proof (intro conjI allI impI)
  show "process_report d =
           ([(Debug, ''Reading '' @ path d),
             (Warning, ''Report in '' @ path d @ '' was affected by an Application Error'')],
            Inr (empty_series, empty_frame, empty_frame))"
    by (rule process_report_placeholder [OF assms])
next
  fix docs l reports outbreaks tests
  assume pr: "process_reports docs = (l, Inr (reports, outbreaks, tests))"
  then obtain ts f where run: "run_reports docs = (l, Inr ts)"
    and f: "concat_records (map fst ts) = Inr f"
    and reps: "reports = (dropna_all f)\<lparr>index_names := [Some ''Report ID'']\<rparr>"
    by (cases "run_reports docs")
       (auto simp: process_reports_def split: sum.splits list.splits)
  from run_reports_results [OF run]
  have "list_all2 (\<lambda>d t. snd (process_report d) = Inr t) docs ts" by simp
  from batch_records [OF this] concat_records_kept [OF f] reps
  show "map fst (rows reports) =
              map (\<lambda>d. [Str (first_digit_run (path d))]) (filter (\<lambda>d. \<not> is_placeholder d) docs)"
    by simp
qed

theorem placeholder_report_is_dropped_witness:
  "process_report placeholder_document =
     ([(Debug, ''Reading out/125.html''),
       (Warning, ''Report in out/125.html was affected by an Application Error'')],
      Inr (empty_series, empty_frame, empty_frame)) \<and>
   (\<exists>l reports outbreaks tests.
      process_reports [placeholder_document, good_document, placeholder_document]
         = (l, Inr (reports, outbreaks, tests)) \<and>
      map fst (rows reports) = [[Str ''2020'']])"
proof -
  let ?docs = "[placeholder_document, good_document, placeholder_document]"
  have ph: "is_placeholder placeholder_document" by code_simp
  have "case snd (process_reports ?docs) of Inl e \<Rightarrow> False | Inr x \<Rightarrow> True"
    by code_simp
  then obtain l reports outbreaks tests where
    r: "process_reports ?docs = (l, Inr (reports, outbreaks, tests))"
    by (cases "process_reports ?docs") (auto split: sum.splits)
  have g: "\<not> is_placeholder good_document" by code_simp
  have f: "first_digit_run (path good_document) = ''2020''" by code_simp
  have p: "path placeholder_document = ''out/125.html''" by (simp add: placeholder_document_def)
  from placeholder_report_is_dropped [OF ph] r ph g f p show ?thesis by fastforce
qed

subsection \<open>The outbreak extractor: rows\<close>





lemma broadcast_keys_subset:
  "set (map fst (broadcast_fields h country))
     \<subseteq> set (Str ''Location'' # map (\<lambda>r. cell_at h r 0) [1..<length h])"
  by (auto simp: broadcast_fields_def)



















end
